theory Spec2Isabelle
  imports Main "HOL-Library.Sublist"
begin

section \<open>Python values, errors and effects\<close>

text \<open>
  The formatter is a Python module loaded into LLDB.  Its functions raise exceptions,
  print to the console and duplicate file descriptors; all three are explicit here.
  A computation takes the state of the debugger process (its descriptor table, its
  limit on open descriptors and the lines printed so far) and returns either the exception it raised (\<open>Inl\<close>) or
  its value (\<open>Inr\<close>), together with the state it left behind.  Python's \<open>None\<close>
  is the \<open>None\<close> of an option type; Python's unbounded integers are \<open>int\<close>.
  Characters are the code points below 256.
\<close>

datatype py_error = OSError | ValueError | AttributeError | HostError string

datatype open_file = DevNull | Stream string

record world =
  fd_table :: "open_file option list"
  fd_limit :: nat
  console :: "string list"

type_synonym 'a io = "world \<Rightarrow> (py_error + 'a) \<times> world"

definition io_return :: "'a \<Rightarrow> 'a io" where
  "io_return x = (\<lambda>w. (Inr x, w))"

definition io_bind :: "'a io \<Rightarrow> ('a \<Rightarrow> 'b io) \<Rightarrow> 'b io" where
  "io_bind m f = (\<lambda>w. case m w of (Inl e, w') \<Rightarrow> (Inl e, w') | (Inr x, w') \<Rightarrow> f x w')"

definition io_lift :: "py_error + 'a \<Rightarrow> 'a io" where
  \<comment> \<open>a call into the host that raises or returns and leaves the state alone\<close>
  "io_lift r = (\<lambda>w. (r, w))"

definition py_print :: "string \<Rightarrow> unit io" where
  "py_print line = (\<lambda>w. (Inr (), w\<lparr>console := console w @ [line]\<rparr>))"

subsection \<open>File descriptors\<close>

text \<open>
  The descriptor table is a list indexed by descriptor number: \<open>Some f\<close> when the
  descriptor is open on \<open>f\<close>, \<open>None\<close> when it is free; descriptors past the end
  are free.  A process holds descriptors below its limit only: \<open>os.open\<close> and
  \<open>os.dup\<close> take the lowest free descriptor and raise \<open>OSError\<close> when it is not
  below the limit, and \<open>os.dup2\<close> raises when its target is not.
  \<open>nth_free t k\<close> is the free descriptor with \<open>k\<close> free descriptors below it;
  the context manager needs four descriptors, so it has room when the fourth free
  descriptor is below the limit.
\<close>

definition fd_lookup :: "open_file option list \<Rightarrow> nat \<Rightarrow> open_file option" where
  "fd_lookup t n = (if n < length t then t ! n else None)"

fun lowest_free :: "open_file option list \<Rightarrow> nat" where
  "lowest_free [] = 0"
| "lowest_free (None # t) = 0"
| "lowest_free (Some f # t) = Suc (lowest_free t)"

definition fd_put :: "open_file option list \<Rightarrow> nat \<Rightarrow> open_file option \<Rightarrow> open_file option list" where
  "fd_put t n x = (t @ replicate (Suc n - length t) None)[n := x]"

fun nth_free :: "open_file option list \<Rightarrow> nat \<Rightarrow> nat" where
  "nth_free [] k = k"
| "nth_free (None # t) 0 = 0"
| "nth_free (None # t) (Suc k) = Suc (nth_free t k)"
| "nth_free (Some f # t) k = Suc (nth_free t k)"

definition descriptors_available :: "world \<Rightarrow> bool" where
  "descriptors_available w = (nth_free (fd_table w) 3 < fd_limit w)"

definition fd_alloc :: "open_file \<Rightarrow> nat io" where
  "fd_alloc f = (\<lambda>w. let n = lowest_free (fd_table w)
                      in if n < fd_limit w
                         then (Inr n, w\<lparr>fd_table := fd_put (fd_table w) n (Some f)\<rparr>)
                         else (Inl OSError, w))"

definition os_open_devnull :: "nat io" where
  \<comment> \<open>\<open>os.open(os.devnull, os.O_RDWR)\<close>\<close>
  "os_open_devnull = fd_alloc DevNull"

definition os_dup :: "nat \<Rightarrow> nat io" where
  "os_dup fd = (\<lambda>w. case fd_lookup (fd_table w) fd of
                       None \<Rightarrow> (Inl OSError, w)
                     | Some f \<Rightarrow> fd_alloc f w)"

definition os_dup2 :: "nat \<Rightarrow> nat \<Rightarrow> nat io" where
  "os_dup2 fd fd2 = (\<lambda>w. case fd_lookup (fd_table w) fd of
                       None \<Rightarrow> (Inl OSError, w)
                     | Some f \<Rightarrow>
                         if fd2 < fd_limit w
                         then (Inr fd2, w\<lparr>fd_table := fd_put (fd_table w) fd2 (Some f)\<rparr>)
                         else (Inl OSError, w))"

definition os_close :: "nat \<Rightarrow> unit io" where
  "os_close fd = (\<lambda>w. case fd_lookup (fd_table w) fd of
                       None \<Rightarrow> (Inl OSError, w)
                     | Some f \<Rightarrow> (Inr (), w\<lparr>fd_table := fd_put (fd_table w) fd None\<rparr>))"

subsection \<open>The context manager \<open>suppress_stdout_stderr\<close>\<close>

text \<open>The two-element list \<open>null_fds\<close> and the tuple \<open>save_fds\<close> are pairs.\<close>

record suppress_stdout_stderr =
  null_fds :: "nat \<times> nat"
  save_fds :: "nat \<times> nat"

definition suppress_init :: "suppress_stdout_stderr io" where
  "suppress_init =
     io_bind os_open_devnull (\<lambda>n0.
     io_bind os_open_devnull (\<lambda>n1.
     io_bind (os_dup 1) (\<lambda>s1.
     io_bind (os_dup 2) (\<lambda>s2.
     io_return \<lparr>null_fds = (n0, n1), save_fds = (s1, s2)\<rparr>))))"

definition suppress_enter :: "suppress_stdout_stderr \<Rightarrow> unit io" where
  "suppress_enter self =
     io_bind (os_dup2 (fst (null_fds self)) 1) (\<lambda>_.
     io_bind (os_dup2 (snd (null_fds self)) 2) (\<lambda>_.
     io_return ()))"

definition suppress_exit :: "suppress_stdout_stderr \<Rightarrow> unit io" where
  "suppress_exit self =
     io_bind (os_dup2 (fst (save_fds self)) 1) (\<lambda>_.
     io_bind (os_dup2 (snd (save_fds self)) 2) (\<lambda>_.
     io_bind (os_close (fst (null_fds self))) (\<lambda>_.
     os_close (snd (null_fds self)))))"

definition with_suppress_stdout_stderr :: "'a io \<Rightarrow> 'a io" where
  \<comment> \<open>\<open>with suppress_stdout_stderr(): body\<close>.  Once \<open>__enter__\<close> has returned,
      \<open>__exit__\<close> runs whether the body returned or raised; it returns \<open>None\<close>, so an
      exception of the body is raised again after it, unless \<open>__exit__\<close> raised itself.\<close>
  "with_suppress_stdout_stderr body =
     io_bind suppress_init (\<lambda>self.
     io_bind (suppress_enter self) (\<lambda>_ w.
       case body w of (r, w') \<Rightarrow>
         (case suppress_exit self w' of
            (Inl e, w'') \<Rightarrow> (Inl e, w'')
          | (Inr _, w'') \<Rightarrow> (r, w''))))"

section \<open>The values handed over by the debugger\<close>

text \<open>
  An \<open>SBValue\<close> is a handle into the debugged process; the formatter only calls it.
  The record holds what each call answers: \<open>GetChildValue i\<close> stands for
  \<open>GetChildAtIndex(i, lldb.eNoDynamicValues, True).GetValue()\<close>, which raises or
  returns a string or \<open>None\<close>; \<open>IsPointerType\<close> for \<open>GetType().IsPointerType()\<close>.
  The matrix value itself has, in addition, the name of its type
  (\<open>GetType().GetName()\<close>), its default summary, its expression path, the values at
  its expression paths, and \<open>EvaluateExpression e\<close> for the signed value of
  \<open>e\<close> evaluated in the selected frame
  (\<open>GetProcess().GetSelectedThread().GetSelectedFrame().EvaluateExpression(e).GetValueAsSigned()\<close>).
\<close>

record sbvalue =
  IsValid :: bool
  GetNumChildren :: nat
  GetChildValue :: "int \<Rightarrow> py_error + string option"
  IsPointerType :: bool

record valobj = sbvalue +
  GetTypeName :: string
  GetSummary :: "string option"
  GetExpressionPath :: string
  GetValueForExpressionPath :: "string \<Rightarrow> sbvalue"
  EvaluateExpression :: "string \<Rightarrow> py_error + int"

definition lldb_init_module :: "string list \<Rightarrow> 'd \<Rightarrow> string list" where
  \<comment> \<open>the debugger is the list of the commands it has handled\<close>
  \<open>lldb_init_module debugger dict =
     debugger
     @ [''type summary add -x "Eigen::Matrix" -F LLDB_Eigen_Data_Formatter.format_matrix'']
     @ [''type summary add -x "Eigen::Array" -F LLDB_Eigen_Data_Formatter.format_matrix'']\<close>

section \<open>Layout detection\<close>

text \<open>
  The pattern \<^verbatim>\<open>Eigen::Matrix<[^,]+, [^,]+, [^,]+, (\d),\<close> is matched piece by
  piece.  \<^verbatim>\<open>[^,]+\<close> takes the longest run of characters other than a comma, which
  must not be empty; a shorter run would be followed by a character that is not a comma,
  where the pattern asks for one, so backtracking finds nothing more.
  \<open>template_regex_match\<close> matches at the start of the string and returns group 1,
  \<open>template_regex_search\<close> tries every start from left to right, as \<open>search\<close> does.
\<close>

definition is_digit :: "char \<Rightarrow> bool" where
  "is_digit c = (c \<in> set ''0123456789'')"

text \<open>
  The pattern as the set of strings it describes: \<open>template_pattern s d\<close> says that
  \<open>s\<close> starts with a match whose group 1 is \<open>d\<close>, and \<open>leftmost_match s d\<close>
  that the first position of \<open>s\<close> where a match starts has group \<open>d\<close>.  The
  functions after them are how the match is computed.
\<close>

definition template_pattern :: "string \<Rightarrow> char \<Rightarrow> bool" where
  "template_pattern s d =
     (\<exists>a b c rest.
        s = ''Eigen::Matrix<'' @ a @ '', '' @ b @ '', '' @ c @ '', '' @ d # CHR '','' # rest
        \<and> a \<noteq> [] \<and> CHR '','' \<notin> set a
        \<and> b \<noteq> [] \<and> CHR '','' \<notin> set b
        \<and> c \<noteq> [] \<and> CHR '','' \<notin> set c
        \<and> is_digit d)"

definition leftmost_match :: "string \<Rightarrow> char \<Rightarrow> bool" where
  "leftmost_match s d =
     (\<exists>pre suf.
        s = pre @ suf \<and> template_pattern suf d
        \<and> (\<forall>pre' suf' d'. s = pre' @ suf' \<and> length pre' < length pre
               \<longrightarrow> \<not> template_pattern suf' d'))"

fun match_literal :: "string \<Rightarrow> string \<Rightarrow> string option" where
  "match_literal [] s = Some s"
| "match_literal (p # ps) [] = None"
| "match_literal (p # ps) (c # s) = (if p = c then match_literal ps s else None)"

definition match_non_commas :: "string \<Rightarrow> string option" where
  "match_non_commas s =
     (if takeWhile (\<lambda>c. c \<noteq> CHR '','') s = [] then None
      else Some (dropWhile (\<lambda>c. c \<noteq> CHR '','') s))"

definition match_digit_comma :: "string \<Rightarrow> char option" where
  "match_digit_comma s =
     (case s of d # c # _ \<Rightarrow> if is_digit d \<and> c = CHR '','' then Some d else None
              | _ \<Rightarrow> None)"

definition template_regex_match :: "string \<Rightarrow> char option" where
  "template_regex_match s =
     Option.bind (match_literal ''Eigen::Matrix<'' s) (\<lambda>s.
     Option.bind (match_non_commas s) (\<lambda>s.
     Option.bind (match_literal '', '' s) (\<lambda>s.
     Option.bind (match_non_commas s) (\<lambda>s.
     Option.bind (match_literal '', '' s) (\<lambda>s.
     Option.bind (match_non_commas s) (\<lambda>s.
     Option.bind (match_literal '', '' s) match_digit_comma))))))"

fun template_regex_search :: "string \<Rightarrow> char option" where
  "template_regex_search [] = template_regex_match []"
| "template_regex_search (c # s) =
     (case template_regex_match (c # s) of
        Some d \<Rightarrow> Some d
      | None \<Rightarrow> template_regex_search s)"

definition extract_is_row_major :: "'a valobj_scheme \<Rightarrow> bool option io" where
  "extract_is_row_major matrix_var =
     (let matrix_type = GetTypeName matrix_var in
      case template_regex_search matrix_type of
        None \<Rightarrow>
          io_bind (py_print (''Could not determine matrix layout from type: '' @ matrix_type))
            (\<lambda>_. io_return None)
      | Some storage_order \<Rightarrow>
          if storage_order = CHR ''1'' then io_return (Some True)
          else if storage_order = CHR ''0'' then io_return (Some False)
          else io_bind (py_print (''Unexpected storage order value: '' @ [storage_order]))
                 (\<lambda>_. io_return None))"

definition evaluate_expression :: "'a valobj_scheme \<Rightarrow> string \<Rightarrow> int io" where
  "evaluate_expression valobj expr = io_lift (EvaluateExpression valobj expr)"

section \<open>Rendering\<close>

subsection \<open>Python's \<open>str\<close>, \<open>rjust\<close> and \<open>range\<close>\<close>

fun str_nat :: "nat \<Rightarrow> string" where
  "str_nat n = (if n < 10 then [''0123456789'' ! n]
                else str_nat (n div 10) @ [''0123456789'' ! (n mod 10)])"

declare str_nat.simps [simp del]

definition str_int :: "int \<Rightarrow> string" where
  "str_int i = (if i < 0 then CHR ''-'' # str_nat (nat (- i)) else str_nat (nat i))"

definition str_bool_option :: "bool option \<Rightarrow> string" where
  "str_bool_option b = (case b of None \<Rightarrow> ''None'' | Some True \<Rightarrow> ''True'' | Some False \<Rightarrow> ''False'')"

definition str_value :: "string option \<Rightarrow> string" where
  \<comment> \<open>\<open>str(v)\<close> for the result of \<open>GetValue()\<close>\<close>
  "str_value v = (case v of None \<Rightarrow> ''None'' | Some s \<Rightarrow> s)"

definition rjust :: "nat \<Rightarrow> string \<Rightarrow> string" where
  "rjust width s = replicate (width - length s) CHR '' '' @ s"

definition py_range :: "int \<Rightarrow> int \<Rightarrow> int list" where
  "py_range start stop = [start..stop - 1]"

definition range_length :: "int \<Rightarrow> int \<Rightarrow> int \<Rightarrow> nat" where
  "range_length start stop step =
     (if 0 < step then (if start < stop then nat ((stop - start - 1) div step + 1) else 0)
      else (if stop < start then nat ((start - stop - 1) div (- step) + 1) else 0))"

definition py_range_step :: "int \<Rightarrow> int \<Rightarrow> int \<Rightarrow> py_error + int list" where
  "py_range_step start stop step =
     (if step = 0 then Inl ValueError
      else Inr (map (\<lambda>k. start + int k * step) [0..<range_length start stop step]))"

subsection \<open>\<open>_row_element\<close> and \<open>print_raw_matrix\<close>\<close>

text \<open>
  A generator is the list of the outcomes of its successive steps; whoever consumes it
  stops at the first \<open>Inl\<close>.  A \<open>range\<close> with step zero raises when the generator
  is first asked for an element.  \<open>None\<close> is false in a condition, so an unknown
  layout takes the second branch.
\<close>

definition row_element ::
  "'a sbvalue_scheme \<Rightarrow> int \<Rightarrow> int \<Rightarrow> int \<Rightarrow> bool option \<Rightarrow> (py_error + string option) list" where
  "row_element valobj row rows cols is_row_major =
     (if is_row_major = Some True
      then map (GetChildValue valobj) (py_range (row * cols) ((row + 1) * cols))
      else case py_range_step row (rows * cols) rows of
             Inl e \<Rightarrow> [Inl e]
           | Inr ixs \<Rightarrow> map (GetChildValue valobj) ixs)"

fun padding_loop :: "'a sbvalue_scheme \<Rightarrow> int list \<Rightarrow> nat \<Rightarrow> py_error + nat" where
  "padding_loop valobj [] padding = Inr padding"
| "padding_loop valobj (i # ixs) padding =
     (case GetChildValue valobj i of
        Inl e \<Rightarrow> Inl e
      | Inr v \<Rightarrow> padding_loop valobj ixs (max padding (length (str_value v))))"

fun join_rjust :: "nat \<Rightarrow> (py_error + string option) list \<Rightarrow> py_error + string" where
  \<comment> \<open>\<open>"".join(val.rjust(width, ' ') for val in ...)\<close>; \<open>None\<close> has no \<open>rjust\<close>\<close>
  "join_rjust width [] = Inr []"
| "join_rjust width (Inl e # vals) = Inl e"
| "join_rjust width (Inr None # vals) = Inl AttributeError"
| "join_rjust width (Inr (Some val) # vals) =
     (case join_rjust width vals of
        Inl e \<Rightarrow> Inl e
      | Inr rest \<Rightarrow> Inr (rjust width val @ rest))"

fun rows_loop ::
  "'a sbvalue_scheme \<Rightarrow> int \<Rightarrow> int \<Rightarrow> bool option \<Rightarrow> nat \<Rightarrow> int list \<Rightarrow> string \<Rightarrow> py_error + string" where
  "rows_loop valobj rows cols is_row_major padding [] output = Inr output"
| "rows_loop valobj rows cols is_row_major padding (j # js) output =
     (case join_rjust (padding + 1) (row_element valobj j rows cols is_row_major) of
        Inl e \<Rightarrow> Inl e
      | Inr line \<Rightarrow>
          rows_loop valobj rows cols is_row_major padding js
            ((if j \<noteq> 0 then output @ '' '' else output) @ line @ '';'' @ [CHR 0x0A]))"

definition header :: "int \<Rightarrow> int \<Rightarrow> bool option \<Rightarrow> string" where
  "header rows cols is_row_major =
     ''rows: '' @ str_int rows @ '', cols: '' @ str_int cols
     @ '', is_row_major: '' @ str_bool_option is_row_major @ [CHR 0x0A] @ ''[''"

definition print_raw_matrix ::
  "'a sbvalue_scheme \<Rightarrow> int \<Rightarrow> int \<Rightarrow> bool option \<Rightarrow> py_error + string" where
  "print_raw_matrix valobj rows cols is_row_major =
     (if 100 < rows * cols then Inr ''[matrix too large]''
      else
        case padding_loop valobj (py_range 0 (rows * cols)) 1 of
          Inl e \<Rightarrow> Inl e
        | Inr padding \<Rightarrow>
            (case rows_loop valobj rows cols is_row_major padding (py_range 0 rows)
                    (header rows cols is_row_major) of
               Inl e \<Rightarrow> Inl e
             | Inr output \<Rightarrow> Inr (output @ '' ]'' @ [CHR 0x0A])))"

section \<open>The two storage variants and the dispatcher\<close>

definition read_rows_cols :: "'a valobj_scheme \<Rightarrow> string \<Rightarrow> (int \<times> int) io" where
  \<comment> \<open>the \<open>with\<close> block that both variants share\<close>
  "read_rows_cols valobj valobj_expression_path =
     with_suppress_stdout_stderr
       (io_bind (evaluate_expression valobj (valobj_expression_path @ ''.rows()'')) (\<lambda>rows.
        io_bind (evaluate_expression valobj (valobj_expression_path @ ''.cols()'')) (\<lambda>cols.
        io_return (rows, cols))))"

definition fixed_sized_matrix_to_string :: "'a valobj_scheme \<Rightarrow> string option io" where
  "fixed_sized_matrix_to_string valobj =
     (let data = GetValueForExpressionPath valobj ''.m_storage.m_data.array'';
          num_data_elements = GetNumChildren data
      in if \<not> IsValid data then io_return (GetSummary valobj)
         else
           io_bind (read_rows_cols valobj (GetExpressionPath valobj)) (\<lambda>(rows, cols).
           io_bind (if rows * cols \<noteq> int num_data_elements
                    then io_bind (py_print ''error: eigen data formatter: could not infer data layout. printing raw data instead'')
                           (\<lambda>_. io_return (int num_data_elements, 1))
                    else io_return (rows, cols)) (\<lambda>(rows, cols).
           io_bind (extract_is_row_major valobj) (\<lambda>is_row_major.
           io_bind (io_lift (print_raw_matrix data rows cols is_row_major)) (\<lambda>output.
           io_return (Some output))))))"

definition dynamically_sized_matrix_to_string :: "'a valobj_scheme \<Rightarrow> string option io" where
  "dynamically_sized_matrix_to_string valobj =
     (let data = GetValueForExpressionPath valobj ''.m_storage.m_data'';
          num_data_elements = GetNumChildren data
      in if \<not> IsValid data then io_return (GetSummary valobj)
         else
           io_bind (read_rows_cols valobj (GetExpressionPath valobj)) (\<lambda>(rows, cols).
           let memory_accessable =
                 (case GetChildValue valobj (rows * cols) of Inl _ \<Rightarrow> False | Inr _ \<Rightarrow> True)
           in if \<not> memory_accessable then io_return (Some ''[uninitialized]'')
              else
                io_bind (extract_is_row_major valobj) (\<lambda>is_row_major.
                io_bind (io_lift (print_raw_matrix data rows cols is_row_major)) (\<lambda>output.
                io_return (Some output)))))"

definition format_matrix :: "'a valobj_scheme \<Rightarrow> 'd \<Rightarrow> string option io" where
  "format_matrix valobj internal_dict =
     (if IsValid (GetValueForExpressionPath valobj ''.m_storage.m_data.array'')
      then fixed_sized_matrix_to_string valobj
      else if IsPointerType (GetValueForExpressionPath valobj ''.m_storage.m_data'')
      then dynamically_sized_matrix_to_string valobj
      else io_return (GetSummary valobj))"

section \<open>Example values\<close>

text \<open>
  Concrete hosts on which the theorems below are instantiated.  \<open>list_buffer xs\<close> is
  a valid value whose children are the strings of \<open>xs\<close>; a child past the end has no
  value, and a negative index is refused, as an unsigned parameter refuses it;
  \<open>pointer_buffer xs\<close> is the same behind a pointer, \<open>guarded_buffer xs\<close> is a
  pointer to \<open>xs\<close> whose memory past the end cannot be read, and
  \<open>unreadable_buffer\<close> a pointer to memory that cannot be read at all.
  \<open>example_valobj\<close> is a matrix named \<open>m\<close> with the given type name, the given
  values at its two storage paths and the given answers to \<open>m.rows()\<close> and
  \<open>m.cols()\<close>.
\<close>

definition invalid_sbvalue :: sbvalue where
  "invalid_sbvalue =
     \<lparr>IsValid = False, GetNumChildren = 0, GetChildValue = (\<lambda>i. Inr None), IsPointerType = False\<rparr>"

definition list_buffer :: "string list \<Rightarrow> sbvalue" where
  "list_buffer xs =
     \<lparr>IsValid = True, GetNumChildren = length xs,
      GetChildValue = (\<lambda>i. if i < 0 then Inl (HostError ''OverflowError'')
                           else if i < int (length xs) then Inr (Some (xs ! nat i))
                           else Inr None),
      IsPointerType = False\<rparr>"

definition pointer_buffer :: "string list \<Rightarrow> sbvalue" where
  "pointer_buffer xs = (list_buffer xs)\<lparr>IsPointerType := True\<rparr>"



definition example_valobj ::
  "string \<Rightarrow> sbvalue \<Rightarrow> sbvalue \<Rightarrow> py_error + int \<Rightarrow> py_error + int \<Rightarrow> valobj" where
  "example_valobj type_name array_member data_member rows cols =
     \<lparr>IsValid = True, GetNumChildren = 1, GetChildValue = (\<lambda>i. Inr None), IsPointerType = False,
      GetTypeName = type_name,
      GetSummary = Some ''default summary'',
      GetExpressionPath = ''m'',
      GetValueForExpressionPath =
        (\<lambda>path. if path = ''.m_storage.m_data.array'' then array_member
                else if path = ''.m_storage.m_data'' then data_member
                else invalid_sbvalue),
      EvaluateExpression =
        (\<lambda>expr. if expr = ''m.rows()'' then rows
                else if expr = ''m.cols()'' then cols
                else Inr 0)\<rparr>"

definition std_world :: world where
  "std_world =
     \<lparr>fd_table = [Some (Stream ''stdin''), Some (Stream ''stdout''), Some (Stream ''stderr'')],
      fd_limit = 256,
      console = []\<rparr>"

text \<open>
  \<open>run_times n m\<close> runs \<open>m\<close> \<open>n\<close> times, each time from the state the run
  before left, and lists what each run returned or raised.
\<close>

fun run_times :: "nat \<Rightarrow> 'a io \<Rightarrow> world \<Rightarrow> (py_error + 'a) list" where
  "run_times 0 m w = []"
| "run_times (Suc n) m w = (case m w of (r, w') \<Rightarrow> r # run_times n m w')"

section \<open>The size guard of \<open>print_raw_matrix\<close>\<close>

lemma rows_loop_prefix:
  "rows_loop valobj rows cols order padding js out = Inr result \<Longrightarrow>
   \<exists>rest. result = out @ rest"
proof (induction js arbitrary: out)
  case Nil
  then show ?case by simp
next
  case (Cons j js)
  then show ?case by (fastforce split: sum.splits if_splits)
qed

text \<open>
  C4.  \<open>print_raw_matrix\<close> returns the marker \<open>[matrix too large]\<close> exactly when
  rows times cols is greater than 100: above the cap the result is the marker and nothing
  else (no child is read, nothing can raise), and at or below the cap the result is never
  the marker.
\<close>

theorem print_raw_matrix_too_large_iff:
  "(print_raw_matrix valobj rows cols is_row_major = Inr ''[matrix too large]'')
   = (100 < rows * cols)"
proof (cases "100 < rows * cols")
  case True
  then show ?thesis by (simp add: print_raw_matrix_def)
next
  case False
  have "print_raw_matrix valobj rows cols is_row_major \<noteq> Inr ''[matrix too large]''"
  proof
    assume h: "print_raw_matrix valobj rows cols is_row_major = Inr ''[matrix too large]''"
    then obtain out where "''[matrix too large]'' = out @ '' ]'' @ [CHR 0x0A]"
      using False by (auto simp: print_raw_matrix_def split: sum.splits)
    then have "last ''[matrix too large]'' = last (out @ '' ]'' @ [CHR 0x0A])"
      by simp
    then show False by simp
  qed
  with False show ?thesis by simp
qed

theorem print_raw_matrix_too_large_witness:
  "print_raw_matrix (list_buffer []) 11 10 None = Inr ''[matrix too large]''
   \<and> print_raw_matrix (list_buffer [''7'']) 1 1 None \<noteq> Inr ''[matrix too large]''"
  using print_raw_matrix_too_large_iff [of "list_buffer []" 11 10 None]
    print_raw_matrix_too_large_iff [of "list_buffer [''7'']" 1 1 None]
  by simp

section \<open>Facts about the descriptor table and the context manager\<close>

lemma fd_lookup_put: "fd_lookup (fd_put t n x) m = (if m = n then x else fd_lookup t m)"
  by (auto simp: fd_lookup_def fd_put_def nth_append nth_list_update)

lemma lowest_free_is_free: "fd_lookup t (lowest_free t) = None"
  by (induction t rule: lowest_free.induct) (auto simp: fd_lookup_def)

lemma lowest_free_le: "fd_lookup t n = None \<Longrightarrow> lowest_free t \<le> n"
proof (induction t arbitrary: n rule: lowest_free.induct)
  case 1 then show ?case by simp
next
  case (2 t) then show ?case by simp
next
  case (3 f t)
  then show ?case by (cases n) (auto simp: fd_lookup_def split: if_splits)
qed

lemma open_not_lowest_free: "fd_lookup t n = Some f \<Longrightarrow> lowest_free t \<noteq> n"
  using lowest_free_is_free [of t] by auto

lemma fd_put_Cons_Suc: "fd_put (x # t) (Suc n) y = x # fd_put t n y"
  by (simp add: fd_put_def)

lemma lowest_free_nth_free: "lowest_free t = nth_free t 0"
  by (induction t rule: lowest_free.induct) simp_all

lemma nth_free_after_alloc:
  "nth_free (fd_put t (lowest_free t) (Some f)) k = nth_free t (Suc k)"
proof (induction t rule: lowest_free.induct)
  case 1
  show ?case by (simp add: fd_put_def)
next
  case (2 t)
  show ?case by (simp add: fd_put_def)
next
  case (3 g t)
  then show ?case by (simp add: fd_put_Cons_Suc)
qed

lemma nth_free_mono: "nth_free t k < nth_free t (Suc k)"
proof (induction t k rule: nth_free.induct)
  case (1 k)
  show ?case by simp
next
  case (2 t)
  show ?case by simp
next
  case (3 t k)
  then show ?case by simp
next
  case (4 f t k)
  then show ?case by simp
qed

text \<open>
  Around a body that only calls the host, the context manager raises nothing of its own
  and prints nothing when it has room: each descriptor it uses is open when it is used,
  whatever the table was.
\<close>

lemma with_suppress_lift:
  assumes room: "descriptors_available w"
  shows "\<exists>w'. with_suppress_stdout_stderr (io_lift r) w = (r, w') \<and> console w' = console w"
proof -
  define t0 where "t0 = fd_table w"
  define L where "L = fd_limit w"
  define a where "a = lowest_free t0"
  define t1 where "t1 = fd_put t0 a (Some DevNull)"
  define b where "b = lowest_free t1"
  define t2 where "t2 = fd_put t1 b (Some DevNull)"
  have a_free: "fd_lookup t0 a = None" unfolding a_def by (rule lowest_free_is_free)
  have b_free: "fd_lookup t1 b = None" unfolding b_def by (rule lowest_free_is_free)
  have ab: "a \<noteq> b" using b_free by (auto simp: t1_def fd_lookup_put)
  have one: "fd_lookup t2 1 \<noteq> None"
  proof
    assume h: "fd_lookup t2 1 = None"
    then have "b \<noteq> 1" "a \<noteq> 1" "fd_lookup t0 1 = None" "fd_lookup t1 1 = None"
      by (auto simp: t2_def t1_def fd_lookup_put split: if_splits)
    then have "a \<le> 1" "b \<le> 1" using lowest_free_le a_def b_def by auto
    with \<open>a \<noteq> 1\<close> \<open>b \<noteq> 1\<close> ab show False by auto
  qed
  then obtain f1 where f1: "fd_lookup t2 1 = Some f1" by auto
  define c where "c = lowest_free t2"
  define t3 where "t3 = fd_put t2 c (Some f1)"
  have c_free: "fd_lookup t2 c = None" unfolding c_def by (rule lowest_free_is_free)
  have ca: "c \<noteq> a" and cb: "c \<noteq> b" using c_free by (auto simp: t2_def t1_def fd_lookup_put split: if_splits)
  have two: "fd_lookup t3 2 \<noteq> None"
  proof
    assume h: "fd_lookup t3 2 = None"
    then have n: "c \<noteq> 2" "b \<noteq> 2" "a \<noteq> 2" and f: "fd_lookup t0 2 = None" "fd_lookup t1 2 = None" "fd_lookup t2 2 = None"
      by (auto simp: t3_def t2_def t1_def fd_lookup_put split: if_splits)
    then have "a \<le> 2" "b \<le> 2" "c \<le> 2" using lowest_free_le a_def b_def c_def by auto
    with n ab ca cb show False by auto
  qed
  then obtain f2 where f2: "fd_lookup t3 2 = Some f2" by auto
  define d where "d = lowest_free t3"
  define t4 where "t4 = fd_put t3 d (Some f2)"
  have d_free: "fd_lookup t3 d = None" unfolding d_def by (rule lowest_free_is_free)
  have n1: "nth_free t1 k = nth_free t0 (Suc k)" for k
    unfolding t1_def a_def by (rule nth_free_after_alloc)
  have n2: "nth_free t2 k = nth_free t1 (Suc k)" for k
    unfolding t2_def b_def by (rule nth_free_after_alloc)
  have n3: "nth_free t3 k = nth_free t2 (Suc k)" for k
    unfolding t3_def c_def by (rule nth_free_after_alloc)
  have a_nth: "a = nth_free t0 0" unfolding a_def by (rule lowest_free_nth_free)
  have b_nth: "b = nth_free t0 (Suc 0)"
    unfolding b_def by (simp only: lowest_free_nth_free n1)
  have c_nth: "c = nth_free t0 (Suc (Suc 0))"
    unfolding c_def by (simp only: lowest_free_nth_free n2 n1)
  have d_nth: "d = nth_free t0 (Suc (Suc (Suc 0)))"
    unfolding d_def by (simp only: lowest_free_nth_free n3 n2 n1)
  have "nth_free t0 3 < L"
    using room by (simp add: descriptors_available_def t0_def L_def)
  then have "d < L" by (simp only: d_nth numeral_3_eq_3)
  moreover have "a < b" "b < c" "c < d"
    unfolding a_nth b_nth c_nth d_nth by (rule nth_free_mono)+
  ultimately have lim: "a < L" "b < L" "c < L" "d < L" "1 < L" "2 < L" by simp_all
  have da: "d \<noteq> a" and db: "d \<noteq> b" and dc: "d \<noteq> c"
    using d_free by (auto simp: t3_def t2_def t1_def fd_lookup_put split: if_splits)
  have d3: "d \<noteq> 1" "d \<noteq> 2" using d_free f1 f2 by (auto simp: t3_def fd_lookup_put split: if_splits)
  have i1: "os_open_devnull w = (Inr a, w\<lparr>fd_table := t1\<rparr>)"
    using lim by (simp add: os_open_devnull_def fd_alloc_def Let_def a_def t0_def t1_def L_def)
  have i2: "os_open_devnull (w\<lparr>fd_table := t1\<rparr>) = (Inr b, w\<lparr>fd_table := t2\<rparr>)"
    using lim by (simp add: os_open_devnull_def fd_alloc_def Let_def b_def t2_def L_def)
  have i3: "os_dup 1 (w\<lparr>fd_table := t2\<rparr>) = (Inr c, w\<lparr>fd_table := t3\<rparr>)"
    using f1 lim by (simp add: os_dup_def fd_alloc_def Let_def c_def t3_def L_def)
  have i4: "os_dup 2 (w\<lparr>fd_table := t3\<rparr>) = (Inr d, w\<lparr>fd_table := t4\<rparr>)"
    using f2 lim by (simp add: os_dup_def fd_alloc_def Let_def d_def t4_def L_def)
  have init: "suppress_init w = (Inr \<lparr>null_fds = (a, b), save_fds = (c, d)\<rparr>, w\<lparr>fd_table := t4\<rparr>)"
    by (simp add: suppress_init_def io_bind_def io_return_def i1 i2 i3 i4 del: One_nat_def)
  have la: "fd_lookup t4 a = Some DevNull"
    using ab ca da by (simp add: t4_def t3_def t2_def t1_def fd_lookup_put)
  define t5 where "t5 = fd_put t4 1 (Some DevNull)"
  have lb: "fd_lookup t5 b = Some DevNull"
    using cb db by (simp add: t5_def t4_def t3_def t2_def t1_def fd_lookup_put)
  define t6 where "t6 = fd_put t5 2 (Some DevNull)"
  have e1: "os_dup2 a 1 (w\<lparr>fd_table := t4\<rparr>) = (Inr 1, w\<lparr>fd_table := t5\<rparr>)"
    using la lim by (simp add: os_dup2_def t5_def L_def)
  have e2: "os_dup2 b 2 (w\<lparr>fd_table := t5\<rparr>) = (Inr 2, w\<lparr>fd_table := t6\<rparr>)"
    using lb lim by (simp add: os_dup2_def t6_def L_def)
  have enter: "suppress_enter \<lparr>null_fds = (a, b), save_fds = (c, d)\<rparr> (w\<lparr>fd_table := t4\<rparr>)
                 = (Inr (), w\<lparr>fd_table := t6\<rparr>)"
    by (simp add: suppress_enter_def io_bind_def io_return_def e1 e2 del: One_nat_def)
  obtain g1 where lc: "fd_lookup t6 c = Some g1"
    using dc by (cases "c = 2"; cases "c = 1") (auto simp: t6_def t5_def t4_def t3_def fd_lookup_put)
  define t7 where "t7 = fd_put t6 1 (Some g1)"
  have ld: "fd_lookup t7 d = Some f2"
    using d3 by (simp add: t7_def t6_def t5_def t4_def fd_lookup_put)
  define t8 where "t8 = fd_put t7 2 (Some f2)"
  obtain g2 where lA: "fd_lookup t8 a = Some g2"
    using la by (cases "a = 2"; cases "a = 1") (auto simp: t8_def t7_def t6_def t5_def fd_lookup_put)
  define t9 where "t9 = fd_put t8 a None"
  obtain g3 where lB: "fd_lookup t9 b = Some g3"
    using lb ab by (cases "b = 2"; cases "b = 1") (auto simp: t9_def t8_def t7_def t6_def fd_lookup_put)
  define t10 where "t10 = fd_put t9 b None"
  have x1: "os_dup2 c 1 (w\<lparr>fd_table := t6\<rparr>) = (Inr 1, w\<lparr>fd_table := t7\<rparr>)"
    using lc lim by (simp add: os_dup2_def t7_def L_def)
  have x2: "os_dup2 d 2 (w\<lparr>fd_table := t7\<rparr>) = (Inr 2, w\<lparr>fd_table := t8\<rparr>)"
    using ld lim by (simp add: os_dup2_def t8_def L_def)
  have x3: "os_close a (w\<lparr>fd_table := t8\<rparr>) = (Inr (), w\<lparr>fd_table := t9\<rparr>)"
    using lA by (simp add: os_close_def t9_def)
  have x4: "os_close b (w\<lparr>fd_table := t9\<rparr>) = (Inr (), w\<lparr>fd_table := t10\<rparr>)"
    using lB by (simp add: os_close_def t10_def)
  have exit: "suppress_exit \<lparr>null_fds = (a, b), save_fds = (c, d)\<rparr> (w\<lparr>fd_table := t6\<rparr>)
                 = (Inr (), w\<lparr>fd_table := t10\<rparr>)"
    by (simp add: suppress_exit_def io_bind_def x1 x2 x3 x4 del: One_nat_def)
  have "with_suppress_stdout_stderr (io_lift r) w = (r, w\<lparr>fd_table := t10\<rparr>)"
    using init enter exit
    by (simp add: with_suppress_stdout_stderr_def io_bind_def io_lift_def)
  then show ?thesis by simp
qed

section \<open>Facts about the pattern\<close>

text \<open>
  \<open>template_regex_match\<close> succeeds with group \<open>d\<close> exactly on the strings
  the pattern describes (\<open>template_pattern\<close>), so its greedy pieces lose no match;
  \<open>template_regex_search\<close> returns the group of the leftmost match
  (\<open>leftmost_match\<close>), and \<open>None\<close> exactly when no position matches.
\<close>

lemma match_literal_iff: "match_literal p s = Some r \<longleftrightarrow> s = p @ r"
  by (induction p s rule: match_literal.induct) auto

lemma match_non_commas_iff:
  "match_non_commas s = Some (CHR '','' # r) \<longleftrightarrow>
   (\<exists>a. s = a @ CHR '','' # r \<and> a \<noteq> [] \<and> CHR '','' \<notin> set a)"
proof
  assume h: "match_non_commas s = Some (CHR '','' # r)"
  let ?a = "takeWhile (\<lambda>c. c \<noteq> CHR '','') s"
  from h have "?a \<noteq> []" and d: "dropWhile (\<lambda>c. c \<noteq> CHR '','') s = CHR '','' # r"
    by (auto simp: match_non_commas_def split: if_splits)
  moreover have "s = ?a @ CHR '','' # r"
    using takeWhile_dropWhile_id [of "\<lambda>c. c \<noteq> CHR '',''" s] d by simp
  moreover have "CHR '','' \<notin> set ?a"
    using set_takeWhileD by fastforce
  ultimately show "\<exists>a. s = a @ CHR '','' # r \<and> a \<noteq> [] \<and> CHR '','' \<notin> set a"
    by blast
next
  assume "\<exists>a. s = a @ CHR '','' # r \<and> a \<noteq> [] \<and> CHR '','' \<notin> set a"
  then obtain a where s: "s = a @ CHR '','' # r" and a: "a \<noteq> []" "CHR '','' \<notin> set a"
    by blast
  have "\<And>x. x \<in> set a \<Longrightarrow> x \<noteq> CHR '',''" using a by auto
  then have "takeWhile (\<lambda>c. c \<noteq> CHR '','') s = a" "dropWhile (\<lambda>c. c \<noteq> CHR '','') s = CHR '','' # r"
    unfolding s by (simp_all add: takeWhile_append2 dropWhile_append2)
  with a show "match_non_commas s = Some (CHR '','' # r)"
    by (simp add: match_non_commas_def)
qed

lemma match_digit_comma_iff:
  "match_digit_comma s = Some d \<longleftrightarrow> (\<exists>rest. s = d # CHR '','' # rest \<and> is_digit d)"
  by (auto simp: match_digit_comma_def split: list.splits)

lemma template_regex_match_iff:
  "template_regex_match s = Some d \<longleftrightarrow>
   (\<exists>a b c rest.
      s = ''Eigen::Matrix<'' @ a @ '', '' @ b @ '', '' @ c @ '', '' @ d # CHR '','' # rest
      \<and> a \<noteq> [] \<and> CHR '','' \<notin> set a
      \<and> b \<noteq> [] \<and> CHR '','' \<notin> set b
      \<and> c \<noteq> [] \<and> CHR '','' \<notin> set c
      \<and> is_digit d)"
  (is "?L \<longleftrightarrow> ?R")
proof
  assume ?L
  then obtain s1 s2 s3 s4 s5 s6 s7 where
    1: "match_literal ''Eigen::Matrix<'' s = Some s1" and
    2: "match_non_commas s1 = Some s2" and
    3: "match_literal '', '' s2 = Some s3" and
    4: "match_non_commas s3 = Some s4" and
    5: "match_literal '', '' s4 = Some s5" and
    6: "match_non_commas s5 = Some s6" and
    7: "match_literal '', '' s6 = Some s7" and
    8: "match_digit_comma s7 = Some d"
    by (auto simp: template_regex_match_def Option.bind_eq_Some_conv)
  from 8 obtain rest where r8: "s7 = d # CHR '','' # rest" "is_digit d"
    by (auto simp: match_digit_comma_iff)
  from 7 have r7: "s6 = '', '' @ s7" by (simp only: match_literal_iff)
  from 5 have r5: "s4 = '', '' @ s5" by (simp only: match_literal_iff)
  from 3 have r3: "s2 = '', '' @ s3" by (simp only: match_literal_iff)
  from 1 have r1: "s = ''Eigen::Matrix<'' @ s1" by (simp only: match_literal_iff)
  from 6 r7 obtain c where rc: "s5 = c @ s6" "c \<noteq> []" "CHR '','' \<notin> set c"
    using match_non_commas_iff [of s5 "CHR '' '' # s7"] by auto
  from 4 r5 obtain b where rb: "s3 = b @ s4" "b \<noteq> []" "CHR '','' \<notin> set b"
    using match_non_commas_iff [of s3 "CHR '' '' # s5"] by auto
  from 2 r3 obtain a where ra: "s1 = a @ s2" "a \<noteq> []" "CHR '','' \<notin> set a"
    using match_non_commas_iff [of s1 "CHR '' '' # s3"] by auto
  have "s = ''Eigen::Matrix<'' @ a @ '', '' @ b @ '', '' @ c @ '', '' @ d # CHR '','' # rest"
    by (simp only: r1 ra rb rc r3 r5 r7 r8)
  with ra rb rc r8 show ?R by blast
next
  assume ?R
  then obtain a b c rest where
    s: "s = ''Eigen::Matrix<'' @ a @ '', '' @ b @ '', '' @ c @ '', '' @ d # CHR '','' # rest"
    and a: "a \<noteq> []" "CHR '','' \<notin> set a"
    and b: "b \<noteq> []" "CHR '','' \<notin> set b"
    and c: "c \<noteq> []" "CHR '','' \<notin> set c"
    and d: "is_digit d"
    by blast
  define s7 where "s7 = d # CHR '','' # rest"
  define s5 where "s5 = c @ '', '' @ s7"
  define s3 where "s3 = b @ '', '' @ s5"
  define s1 where "s1 = a @ '', '' @ s3"
  have 1: "match_literal ''Eigen::Matrix<'' s = Some s1"
    by (simp only: match_literal_iff s s1_def s3_def s5_def s7_def)
  have 2: "match_non_commas s1 = Some ('', '' @ s3)"
    using a match_non_commas_iff [of s1 "CHR '' '' # s3"] by (auto simp: s1_def)
  have 3: "match_literal '', '' ('', '' @ s3) = Some s3" by (simp only: match_literal_iff)
  have 4: "match_non_commas s3 = Some ('', '' @ s5)"
    using b match_non_commas_iff [of s3 "CHR '' '' # s5"] by (auto simp: s3_def)
  have 5: "match_literal '', '' ('', '' @ s5) = Some s5" by (simp only: match_literal_iff)
  have 6: "match_non_commas s5 = Some ('', '' @ s7)"
    using c match_non_commas_iff [of s5 "CHR '' '' # s7"] by (auto simp: s5_def)
  have 7: "match_literal '', '' ('', '' @ s7) = Some s7" by (simp only: match_literal_iff)
  have 8: "match_digit_comma s7 = Some d"
    using d by (simp add: match_digit_comma_iff s7_def)
  show ?L
    by (simp only: template_regex_match_def 1 2 3 4 5 6 7 8 Option.bind.simps)
qed

lemma template_regex_search_Some:
  "template_regex_search s = Some d \<Longrightarrow>
   \<exists>pre suf. s = pre @ suf \<and> template_regex_match suf = Some d
     \<and> (\<forall>pre' suf'. s = pre' @ suf' \<and> length pre' < length pre \<longrightarrow> template_regex_match suf' = None)"
proof (induction s)
  case Nil
  then show ?case by (intro exI [of _ "[]"]) simp
next
  case (Cons x s)
  show ?case
  proof (cases "template_regex_match (x # s)")
    case (Some e)
    with Cons.prems have "e = d" by simp
    with Some show ?thesis by (intro exI [of _ "[]"] exI [of _ "x # s"]) simp
  next
    case None
    with Cons.prems have "template_regex_search s = Some d" by simp
    from Cons.IH [OF this] obtain pre suf where
      p: "s = pre @ suf" "template_regex_match suf = Some d"
      "\<forall>pre' suf'. s = pre' @ suf' \<and> length pre' < length pre \<longrightarrow> template_regex_match suf' = None"
      by blast
    have "\<forall>pre' suf'. x # s = pre' @ suf' \<and> length pre' < length (x # pre) \<longrightarrow> template_regex_match suf' = None"
    proof (intro allI impI)
      fix pre' suf'
      assume h: "x # s = pre' @ suf' \<and> length pre' < length (x # pre)"
      show "template_regex_match suf' = None"
      proof (cases pre')
        case Nil
        with h None show ?thesis by simp
      next
        case (Cons y ys)
        with h have "s = ys @ suf'" "length ys < length pre" by auto
        with p(3) show ?thesis by blast
      qed
    qed
    with p(1,2) show ?thesis
      by (intro exI [of _ "x # pre"] exI [of _ suf]) simp
  qed
qed

lemma template_regex_search_None_iff:
  "template_regex_search s = None \<longleftrightarrow> (\<forall>pre suf. s = pre @ suf \<longrightarrow> template_regex_match suf = None)"
proof (induction s)
  case Nil
  then show ?case by simp
next
  case (Cons x s)
  show ?case
  proof (cases "template_regex_match (x # s)")
    case (Some e)
    then show ?thesis by (auto intro: exI [of _ "[]"])
  next
    case None
    have "(\<forall>pre suf. x # s = pre @ suf \<longrightarrow> template_regex_match suf = None)
          \<longleftrightarrow> (\<forall>pre suf. s = pre @ suf \<longrightarrow> template_regex_match suf = None)"
      using None by (auto simp: Cons_eq_append_conv)
    with None Cons.IH show ?thesis by simp
  qed
qed

lemma no_prefix_no_match:
  assumes "\<not> sublist ''Eigen::Matrix<'' s"
  shows "template_regex_search s = None"
proof -
  have "template_regex_match suf = None" if "s = pre @ suf" for pre suf
  proof (cases "template_regex_match suf")
    case None then show ?thesis .
  next
    case (Some d)
    then obtain r where "suf = ''Eigen::Matrix<'' @ r"
      unfolding template_regex_match_iff by blast
    with that have "s = pre @ ''Eigen::Matrix<'' @ r" by simp
    then have "sublist ''Eigen::Matrix<'' s" unfolding sublist_def by blast
    with assms show ?thesis by simp
  qed
  then show ?thesis by (simp add: template_regex_search_None_iff)
qed

lemma template_regex_match_pattern:
  "(template_regex_match s = Some d) = template_pattern s d"
  by (simp only: template_regex_match_iff template_pattern_def)

lemma template_regex_search_at:
  assumes "template_regex_match suf = Some d"
    and "\<forall>pre' suf'. pre @ suf = pre' @ suf' \<and> length pre' < length pre
           \<longrightarrow> template_regex_match suf' = None"
  shows "template_regex_search (pre @ suf) = Some d"
  using assms(2)
proof (induction pre)
  case Nil
  from assms(1) show ?case by (cases suf) simp_all
next
  case (Cons x pre)
  have "template_regex_match (x # pre @ suf) = None"
    using Cons.prems [rule_format, of "[]" "x # pre @ suf"] by simp
  moreover have "\<forall>pre' suf'. pre @ suf = pre' @ suf' \<and> length pre' < length pre
           \<longrightarrow> template_regex_match suf' = None"
  proof (intro allI impI)
    fix pre' suf'
    assume "pre @ suf = pre' @ suf' \<and> length pre' < length pre"
    then have "(x # pre) @ suf = (x # pre') @ suf' \<and> length (x # pre') < length (x # pre)"
      by simp
    then show "template_regex_match suf' = None"
      by (rule Cons.prems [rule_format])
  qed
  ultimately show ?case using Cons.IH by simp
qed

lemma template_regex_search_leftmost:
  "(template_regex_search s = Some d) = leftmost_match s d"
proof
  assume "template_regex_search s = Some d"
  from template_regex_search_Some [OF this] obtain pre suf where
    s: "s = pre @ suf" and m: "template_regex_match suf = Some d"
    and e: "\<forall>pre' suf'. s = pre' @ suf' \<and> length pre' < length pre
              \<longrightarrow> template_regex_match suf' = None"
    by blast
  have "\<forall>pre' suf' d'. s = pre' @ suf' \<and> length pre' < length pre
          \<longrightarrow> \<not> template_pattern suf' d'"
  proof (intro allI impI)
    fix pre' suf' d'
    assume "s = pre' @ suf' \<and> length pre' < length pre"
    with e have "template_regex_match suf' = None" by blast
    then show "\<not> template_pattern suf' d'"
      by (simp add: template_regex_match_pattern [symmetric])
  qed
  with s m show "leftmost_match s d"
    unfolding leftmost_match_def template_regex_match_pattern by blast
next
  assume "leftmost_match s d"
  then obtain pre suf where
    s: "s = pre @ suf" and m: "template_pattern suf d"
    and e: "\<forall>pre' suf' d'. s = pre' @ suf' \<and> length pre' < length pre
              \<longrightarrow> \<not> template_pattern suf' d'"
    unfolding leftmost_match_def by blast
  have "\<forall>pre' suf'. pre @ suf = pre' @ suf' \<and> length pre' < length pre
          \<longrightarrow> template_regex_match suf' = None"
  proof (intro allI impI)
    fix pre' suf'
    assume h: "pre @ suf = pre' @ suf' \<and> length pre' < length pre"
    show "template_regex_match suf' = None"
    proof (cases "template_regex_match suf'")
      case None
      then show ?thesis .
    next
      case (Some d')
      then have "template_pattern suf' d'" by (simp only: template_regex_match_pattern)
      with e h s show ?thesis by blast
    qed
  qed
  with m show "template_regex_search s = Some d"
    unfolding s by (intro template_regex_search_at) (simp_all only: template_regex_match_pattern)
qed

lemma template_regex_search_no_match:
  "(template_regex_search s = None)
   = (\<forall>pre suf d. s = pre @ suf \<longrightarrow> \<not> template_pattern suf d)"
proof -
  have "(\<forall>pre suf. s = pre @ suf \<longrightarrow> template_regex_match suf = None)
        = (\<forall>pre suf d. s = pre @ suf \<longrightarrow> \<not> template_pattern suf d)"
    by (simp add: template_regex_match_pattern [symmetric])
  then show ?thesis by (simp only: template_regex_search_None_iff)
qed

section \<open>Facts about the formatting functions\<close>

lemma read_rows_cols_eq:
  assumes "descriptors_available w"
  shows "\<exists>w'. read_rows_cols valobj path w =
           (case EvaluateExpression valobj (path @ ''.rows()'') of
              Inl e \<Rightarrow> Inl e
            | Inr rows \<Rightarrow> (case EvaluateExpression valobj (path @ ''.cols()'') of
                             Inl e \<Rightarrow> Inl e
                           | Inr cols \<Rightarrow> Inr (rows, cols)), w')
        \<and> console w' = console w"
proof -
  let ?r = "case EvaluateExpression valobj (path @ ''.rows()'') of
              Inl e \<Rightarrow> Inl e
            | Inr rows \<Rightarrow> (case EvaluateExpression valobj (path @ ''.cols()'') of
                             Inl e \<Rightarrow> Inl e
                           | Inr cols \<Rightarrow> Inr (rows, cols))"
  have "io_bind (evaluate_expression valobj (path @ ''.rows()'')) (\<lambda>rows.
        io_bind (evaluate_expression valobj (path @ ''.cols()'')) (\<lambda>cols.
        io_return (rows, cols))) = io_lift ?r"
    by (rule ext)
      (simp add: io_bind_def io_lift_def io_return_def evaluate_expression_def split: sum.splits)
  then show ?thesis
    using with_suppress_lift [OF assms, of ?r] by (simp add: read_rows_cols_def)
qed

lemma extract_is_row_major_eq:
  "extract_is_row_major v w =
     (case template_regex_search (GetTypeName v) of
        None \<Rightarrow> (Inr None, w\<lparr>console := console w
                    @ [''Could not determine matrix layout from type: '' @ GetTypeName v]\<rparr>)
      | Some d \<Rightarrow>
          if d = CHR ''1'' then (Inr (Some True), w)
          else if d = CHR ''0'' then (Inr (Some False), w)
          else (Inr None, w\<lparr>console := console w @ [''Unexpected storage order value: '' @ [d]]\<rparr>))"
  by (simp add: extract_is_row_major_def Let_def io_bind_def io_return_def py_print_def
      split: option.splits)

lemma read_rows_cols_ok:
  assumes "descriptors_available w"
    and "EvaluateExpression valobj (path @ ''.rows()'') = Inr rows"
    and "EvaluateExpression valobj (path @ ''.cols()'') = Inr cols"
  shows "\<exists>w'. read_rows_cols valobj path w = (Inr (rows, cols), w') \<and> console w' = console w"
  using read_rows_cols_eq [OF assms(1), of valobj path] assms(2,3) by simp

section \<open>What the layout detector returns\<close>

text \<open>
  C5.  For every type name, \<open>extract_is_row_major\<close> returns and never raises.
  When the leftmost match of the pattern in the type name has group \<open>d\<close>, that is
  when the first place where \<open>Eigen::Matrix<\<close>, three non-empty comma-free pieces
  each followed by a comma and a space, a digit and a comma occur in a row has the digit
  \<open>d\<close>, the value is \<open>Some True\<close> (row-major) for \<open>d = 1\<close>, \<open>Some False\<close>
  (column-major) for \<open>d = 0\<close>, and \<open>None\<close> (unknown) with one diagnostic line for
  any other digit.  When the pattern matches nowhere in the type name, the value is
  \<open>None\<close> with one diagnostic line.  One of the two cases always holds.
\<close>

theorem extract_is_row_major_total:
  "(\<exists>r w'. extract_is_row_major v w = (Inr r, w'))
   \<and> (\<forall>d. leftmost_match (GetTypeName v) d \<longrightarrow>
          extract_is_row_major v w =
            (if d = CHR ''1'' then (Inr (Some True), w)
             else if d = CHR ''0'' then (Inr (Some False), w)
             else (Inr None,
                   w\<lparr>console := console w @ [''Unexpected storage order value: '' @ [d]]\<rparr>)))
   \<and> ((\<forall>pre suf d. GetTypeName v = pre @ suf \<longrightarrow> \<not> template_pattern suf d) \<longrightarrow>
          extract_is_row_major v w =
            (Inr None,
             w\<lparr>console := console w
                @ [''Could not determine matrix layout from type: '' @ GetTypeName v]\<rparr>))
   \<and> ((\<exists>d. leftmost_match (GetTypeName v) d)
        \<or> (\<forall>pre suf d. GetTypeName v = pre @ suf \<longrightarrow> \<not> template_pattern suf d))"
proof (intro conjI allI impI)
  show "\<exists>r w'. extract_is_row_major v w = (Inr r, w')"
    by (simp add: extract_is_row_major_eq split: option.splits)
next
  fix d
  assume "leftmost_match (GetTypeName v) d"
  then have "template_regex_search (GetTypeName v) = Some d"
    by (simp only: template_regex_search_leftmost)
  then show "extract_is_row_major v w =
            (if d = CHR ''1'' then (Inr (Some True), w)
             else if d = CHR ''0'' then (Inr (Some False), w)
             else (Inr None,
                   w\<lparr>console := console w @ [''Unexpected storage order value: '' @ [d]]\<rparr>))"
    by (simp add: extract_is_row_major_eq)
next
  assume "\<forall>pre suf d. GetTypeName v = pre @ suf \<longrightarrow> \<not> template_pattern suf d"
  then have "template_regex_search (GetTypeName v) = None"
    by (simp only: template_regex_search_no_match)
  then show "extract_is_row_major v w =
            (Inr None,
             w\<lparr>console := console w
                @ [''Could not determine matrix layout from type: '' @ GetTypeName v]\<rparr>)"
    by (simp add: extract_is_row_major_eq)
next
  show "(\<exists>d. leftmost_match (GetTypeName v) d)
        \<or> (\<forall>pre suf d. GetTypeName v = pre @ suf \<longrightarrow> \<not> template_pattern suf d)"
  proof (cases "template_regex_search (GetTypeName v)")
    case None
    then show ?thesis by (simp only: template_regex_search_no_match) simp
  next
    case (Some d)
    then have "leftmost_match (GetTypeName v) d" by (simp only: template_regex_search_leftmost)
    then show ?thesis by blast
  qed
qed

theorem extract_is_row_major_total_witness:
  "leftmost_match ''const Eigen::Matrix<double, 3, 3, 1, 3, 3> &'' CHR ''1''
   \<and> extract_is_row_major
        (example_valobj ''const Eigen::Matrix<double, 3, 3, 1, 3, 3> &''
           invalid_sbvalue invalid_sbvalue (Inr 3) (Inr 3)) std_world
       = (Inr (Some True), std_world)
   \<and> leftmost_match ''Eigen::Matrix<float, -1, -1, 0, -1, -1>'' CHR ''0''
   \<and> extract_is_row_major
        (example_valobj ''Eigen::Matrix<float, -1, -1, 0, -1, -1>''
           invalid_sbvalue invalid_sbvalue (Inr 3) (Inr 3)) std_world
       = (Inr (Some False), std_world)
   \<and> extract_is_row_major
        (example_valobj ''Eigen::MatrixXd'' invalid_sbvalue invalid_sbvalue (Inr 3) (Inr 3))
        std_world
       = (Inr None,
          std_world\<lparr>console :=
             [''Could not determine matrix layout from type: Eigen::MatrixXd'']\<rparr>)"
proof -
  let ?r = "example_valobj ''const Eigen::Matrix<double, 3, 3, 1, 3, 3> &''
           invalid_sbvalue invalid_sbvalue (Inr 3) (Inr 3)"
  let ?c = "example_valobj ''Eigen::Matrix<float, -1, -1, 0, -1, -1>''
           invalid_sbvalue invalid_sbvalue (Inr 3) (Inr 3)"
  let ?x = "example_valobj ''Eigen::MatrixXd'' invalid_sbvalue invalid_sbvalue (Inr 3) (Inr 3)"
  have nr: "GetTypeName ?r = ''const Eigen::Matrix<double, 3, 3, 1, 3, 3> &''"
    and nc: "GetTypeName ?c = ''Eigen::Matrix<float, -1, -1, 0, -1, -1>''"
    and nx: "GetTypeName ?x = ''Eigen::MatrixXd''"
    by (simp_all add: example_valobj_def)
  have "template_regex_search ''const Eigen::Matrix<double, 3, 3, 1, 3, 3> &'' = Some CHR ''1''"
    by code_simp
  then have lr: "leftmost_match ''const Eigen::Matrix<double, 3, 3, 1, 3, 3> &'' CHR ''1''"
    by (simp only: template_regex_search_leftmost)
  have "template_regex_search ''Eigen::Matrix<float, -1, -1, 0, -1, -1>'' = Some CHR ''0''"
    by code_simp
  then have lc: "leftmost_match ''Eigen::Matrix<float, -1, -1, 0, -1, -1>'' CHR ''0''"
    by (simp only: template_regex_search_leftmost)
  have "template_regex_search ''Eigen::MatrixXd'' = None"
    by code_simp
  then have lx: "\<forall>pre suf d. ''Eigen::MatrixXd'' = pre @ suf \<longrightarrow> \<not> template_pattern suf d"
    by (simp only: template_regex_search_no_match)
  note t = extract_is_row_major_total
  have 1: "extract_is_row_major ?r std_world = (Inr (Some True), std_world)"
    using t [of ?r std_world, THEN conjunct2, THEN conjunct1, rule_format, of "CHR ''1''"] lr
    unfolding nr by simp
  have 2: "extract_is_row_major ?c std_world = (Inr (Some False), std_world)"
    using t [of ?c std_world, THEN conjunct2, THEN conjunct1, rule_format, of "CHR ''0''"] lc
    unfolding nc by simp
  have 3: "extract_is_row_major ?x std_world
       = (Inr None,
          std_world\<lparr>console :=
             [''Could not determine matrix layout from type: Eigen::MatrixXd'']\<rparr>)"
    using t [of ?x std_world, THEN conjunct2, THEN conjunct2, THEN conjunct1] lx
    unfolding nx by (simp add: std_world_def)
  from lr 1 lc 2 3 show ?thesis by blast
qed

text \<open>
  The value that \<open>extract_is_row_major\<close> returns and the lines it prints depend on
  the type name alone: two values with the same type name get the same answer, from any
  two states.
\<close>

lemma extract_is_row_major_by_type_name:
  assumes "GetTypeName v = GetTypeName v'"
  shows "fst (extract_is_row_major v w) = fst (extract_is_row_major v' w')"
    and "\<exists>msgs. console (snd (extract_is_row_major v w)) = console w @ msgs
               \<and> console (snd (extract_is_row_major v' w')) = console w' @ msgs"
  by (simp_all add: extract_is_row_major_eq assms split: option.splits)

text \<open>
  C10, as amended.  When the type name does not contain \<open>Eigen::Matrix<\<close>,
  \<open>extract_is_row_major\<close> prints that it could not determine the layout and returns
  \<open>None\<close>, and both storage variants hand \<open>None\<close> to \<open>print_raw_matrix\<close>
  as the ordering whenever they render: the fixed-size one when the storage is valid and
  rows and cols evaluate (with the evaluated rows and cols when their product is the
  number of children, with that number and 1 otherwise), the dynamic one when the storage
  is valid, rows and cols evaluate and the probe returns.  The module registers the
  formatter for the pattern \<open>Eigen::Array\<close> all the same.
\<close>

theorem layout_unknown_without_matrix_prefix:
  assumes "\<not> sublist ''Eigen::Matrix<'' (GetTypeName v)"
  shows \<open>extract_is_row_major v w =
           (Inr None, w\<lparr>console := console w
              @ [''Could not determine matrix layout from type: '' @ GetTypeName v]\<rparr>)
    \<and> (\<forall>rows cols.
          descriptors_available w
          \<and> IsValid (GetValueForExpressionPath v ''.m_storage.m_data.array'')
          \<and> EvaluateExpression v (GetExpressionPath v @ ''.rows()'') = Inr rows
          \<and> EvaluateExpression v (GetExpressionPath v @ ''.cols()'') = Inr cols
          \<longrightarrow> (\<exists>w'. fixed_sized_matrix_to_string v w =
                       (case (if rows * cols
                                 \<noteq> int (GetNumChildren (GetValueForExpressionPath v ''.m_storage.m_data.array''))
                              then print_raw_matrix (GetValueForExpressionPath v ''.m_storage.m_data.array'')
                                     (int (GetNumChildren (GetValueForExpressionPath v ''.m_storage.m_data.array'')))
                                     1 None
                              else print_raw_matrix (GetValueForExpressionPath v ''.m_storage.m_data.array'')
                                     rows cols None) of
                          Inl e \<Rightarrow> Inl e | Inr s \<Rightarrow> Inr (Some s), w')))
    \<and> (\<forall>rows cols x.
          descriptors_available w
          \<and> IsValid (GetValueForExpressionPath v ''.m_storage.m_data'')
          \<and> EvaluateExpression v (GetExpressionPath v @ ''.rows()'') = Inr rows
          \<and> EvaluateExpression v (GetExpressionPath v @ ''.cols()'') = Inr cols
          \<and> GetChildValue v (rows * cols) = Inr x
          \<longrightarrow> (\<exists>w'. dynamically_sized_matrix_to_string v w =
                       (case print_raw_matrix (GetValueForExpressionPath v ''.m_storage.m_data'')
                               rows cols None of
                          Inl e \<Rightarrow> Inl e | Inr s \<Rightarrow> Inr (Some s), w')))
    \<and> ''type summary add -x "Eigen::Array" -F LLDB_Eigen_Data_Formatter.format_matrix''
        \<in> set (lldb_init_module debugger dict)\<close>
proof -
  have n: "template_regex_search (GetTypeName v) = None"
    using assms by (rule no_prefix_no_match)
  have e: "extract_is_row_major v w =
           (Inr None, w\<lparr>console := console w
              @ [''Could not determine matrix layout from type: '' @ GetTypeName v]\<rparr>)" for w
    by (simp add: extract_is_row_major_eq n)
  have f: "\<exists>w'. fixed_sized_matrix_to_string v w =
                       (case (if rows * cols
                                 \<noteq> int (GetNumChildren (GetValueForExpressionPath v ''.m_storage.m_data.array''))
                              then print_raw_matrix (GetValueForExpressionPath v ''.m_storage.m_data.array'')
                                     (int (GetNumChildren (GetValueForExpressionPath v ''.m_storage.m_data.array'')))
                                     1 None
                              else print_raw_matrix (GetValueForExpressionPath v ''.m_storage.m_data.array'')
                                     rows cols None) of
                          Inl e \<Rightarrow> Inl e | Inr s \<Rightarrow> Inr (Some s), w')"
    if h: "descriptors_available w
          \<and> IsValid (GetValueForExpressionPath v ''.m_storage.m_data.array'')
          \<and> EvaluateExpression v (GetExpressionPath v @ ''.rows()'') = Inr rows
          \<and> EvaluateExpression v (GetExpressionPath v @ ''.cols()'') = Inr cols"
    for rows cols
  proof -
    from h read_rows_cols_ok [of w v "GetExpressionPath v" rows cols] obtain w1 where
      r: "read_rows_cols v (GetExpressionPath v) w = (Inr (rows, cols), w1)"
      by blast
    show ?thesis
      using h r
      by (auto simp: fixed_sized_matrix_to_string_def Let_def io_bind_def io_return_def io_lift_def
          py_print_def e split: sum.splits)
  qed
  have g: "\<exists>w'. dynamically_sized_matrix_to_string v w =
                       (case print_raw_matrix (GetValueForExpressionPath v ''.m_storage.m_data'')
                               rows cols None of
                          Inl e \<Rightarrow> Inl e | Inr s \<Rightarrow> Inr (Some s), w')"
    if h: "descriptors_available w
          \<and> IsValid (GetValueForExpressionPath v ''.m_storage.m_data'')
          \<and> EvaluateExpression v (GetExpressionPath v @ ''.rows()'') = Inr rows
          \<and> EvaluateExpression v (GetExpressionPath v @ ''.cols()'') = Inr cols
          \<and> GetChildValue v (rows * cols) = Inr x"
    for rows cols x
  proof -
    from h read_rows_cols_ok [of w v "GetExpressionPath v" rows cols] obtain w1 where
      r: "read_rows_cols v (GetExpressionPath v) w = (Inr (rows, cols), w1)"
      by blast
    show ?thesis
      using h r
      by (auto simp: dynamically_sized_matrix_to_string_def Let_def io_bind_def io_return_def io_lift_def e
          split: sum.splits)
  qed
  have r: \<open>''type summary add -x "Eigen::Array" -F LLDB_Eigen_Data_Formatter.format_matrix''
        \<in> set (lldb_init_module debugger dict)\<close>
    by (simp add: lldb_init_module_def)
  from e f g r show ?thesis by blast
qed

theorem layout_unknown_without_matrix_prefix_witness:
  "\<not> sublist ''Eigen::Matrix<'' ''Eigen::Array<int, 2, 2, 0, 2, 2>''
   \<and> descriptors_available std_world
   \<and> fst (extract_is_row_major
        (example_valobj ''Eigen::Array<int, 2, 2, 0, 2, 2>''
           (list_buffer [''1'', ''2'', ''3'', ''4'']) invalid_sbvalue (Inr 2) (Inr 2)) std_world) = Inr None
   \<and> fst (fixed_sized_matrix_to_string
        (example_valobj ''Eigen::Array<int, 2, 2, 0, 2, 2>''
           (list_buffer [''1'', ''2'', ''3'', ''4'']) invalid_sbvalue (Inr 2) (Inr 2)) std_world)
     = Inr (Some (''rows: 2, cols: 2, is_row_major: None'' @ [CHR 0x0A]
                  @ ''[ 1 3;'' @ [CHR 0x0A] @ ''  2 4;'' @ [CHR 0x0A] @ '' ]'' @ [CHR 0x0A]))
   \<and> fst (fixed_sized_matrix_to_string
        (example_valobj ''Eigen::Array<int, 2, 2, 0, 2, 2>''
           (list_buffer [''1'', ''2'', ''3'', ''4'']) invalid_sbvalue (Inr 3) (Inr 1)) std_world)
     = Inr (Some (''rows: 4, cols: 1, is_row_major: None'' @ [CHR 0x0A]
                  @ ''[ 1;'' @ [CHR 0x0A] @ ''  2;'' @ [CHR 0x0A] @ ''  3;'' @ [CHR 0x0A]
                  @ ''  4;'' @ [CHR 0x0A] @ '' ]'' @ [CHR 0x0A]))
   \<and> fst (dynamically_sized_matrix_to_string
        (example_valobj ''Eigen::Array<int, 2, 2, 0, 2, 2>''
           invalid_sbvalue (pointer_buffer [''1'', ''2'', ''3'', ''4'']) (Inr 2) (Inr 2)) std_world)
     = Inr (Some (''rows: 2, cols: 2, is_row_major: None'' @ [CHR 0x0A]
                  @ ''[ 1 3;'' @ [CHR 0x0A] @ ''  2 4;'' @ [CHR 0x0A] @ '' ]'' @ [CHR 0x0A]))"
proof -
  let ?f = "example_valobj ''Eigen::Array<int, 2, 2, 0, 2, 2>''
           (list_buffer [''1'', ''2'', ''3'', ''4'']) invalid_sbvalue (Inr 2) (Inr 2)"
  let ?m = "example_valobj ''Eigen::Array<int, 2, 2, 0, 2, 2>''
           (list_buffer [''1'', ''2'', ''3'', ''4'']) invalid_sbvalue (Inr 3) (Inr 1)"
  let ?d = "example_valobj ''Eigen::Array<int, 2, 2, 0, 2, 2>''
           invalid_sbvalue (pointer_buffer [''1'', ''2'', ''3'', ''4'']) (Inr 2) (Inr 2)"
  have s: "\<not> sublist ''Eigen::Matrix<'' ''Eigen::Array<int, 2, 2, 0, 2, 2>''"
    by code_simp
  then have sf: "\<not> sublist ''Eigen::Matrix<'' (GetTypeName ?f)"
    and sm: "\<not> sublist ''Eigen::Matrix<'' (GetTypeName ?m)"
    and sd: "\<not> sublist ''Eigen::Matrix<'' (GetTypeName ?d)"
    by (simp_all add: example_valobj_def)
  have room: "descriptors_available std_world" by code_simp
  have hf: "descriptors_available std_world
          \<and> IsValid (GetValueForExpressionPath ?f ''.m_storage.m_data.array'')
          \<and> EvaluateExpression ?f (GetExpressionPath ?f @ ''.rows()'') = Inr 2
          \<and> EvaluateExpression ?f (GetExpressionPath ?f @ ''.cols()'') = Inr 2"
    and nf: "2 * 2 = int (GetNumChildren (GetValueForExpressionPath ?f ''.m_storage.m_data.array''))"
    using room by (simp_all add: example_valobj_def list_buffer_def)
  have hm: "descriptors_available std_world
          \<and> IsValid (GetValueForExpressionPath ?m ''.m_storage.m_data.array'')
          \<and> EvaluateExpression ?m (GetExpressionPath ?m @ ''.rows()'') = Inr 3
          \<and> EvaluateExpression ?m (GetExpressionPath ?m @ ''.cols()'') = Inr 1"
    and nm: "3 * 1 \<noteq> int (GetNumChildren (GetValueForExpressionPath ?m ''.m_storage.m_data.array''))"
    using room by (simp_all add: example_valobj_def list_buffer_def)
  have hd: "descriptors_available std_world
          \<and> IsValid (GetValueForExpressionPath ?d ''.m_storage.m_data'')
          \<and> EvaluateExpression ?d (GetExpressionPath ?d @ ''.rows()'') = Inr 2
          \<and> EvaluateExpression ?d (GetExpressionPath ?d @ ''.cols()'') = Inr 2
          \<and> GetChildValue ?d (2 * 2) = Inr None"
    using room by (simp add: example_valobj_def list_buffer_def pointer_buffer_def)
  have pf: "print_raw_matrix (GetValueForExpressionPath ?f ''.m_storage.m_data.array'') 2 2 None
         = Inr (''rows: 2, cols: 2, is_row_major: None'' @ [CHR 0x0A]
                  @ ''[ 1 3;'' @ [CHR 0x0A] @ ''  2 4;'' @ [CHR 0x0A] @ '' ]'' @ [CHR 0x0A])"
    by code_simp
  have pm: "print_raw_matrix (GetValueForExpressionPath ?m ''.m_storage.m_data.array'')
              (int (GetNumChildren (GetValueForExpressionPath ?m ''.m_storage.m_data.array''))) 1 None
         = Inr (''rows: 4, cols: 1, is_row_major: None'' @ [CHR 0x0A]
                  @ ''[ 1;'' @ [CHR 0x0A] @ ''  2;'' @ [CHR 0x0A] @ ''  3;'' @ [CHR 0x0A]
                  @ ''  4;'' @ [CHR 0x0A] @ '' ]'' @ [CHR 0x0A])"
    by code_simp
  have pd: "print_raw_matrix (GetValueForExpressionPath ?d ''.m_storage.m_data'') 2 2 None
         = Inr (''rows: 2, cols: 2, is_row_major: None'' @ [CHR 0x0A]
                  @ ''[ 1 3;'' @ [CHR 0x0A] @ ''  2 4;'' @ [CHR 0x0A] @ '' ]'' @ [CHR 0x0A])"
    by code_simp
  note tf = layout_unknown_without_matrix_prefix [OF sf, of std_world "[]" "()"]
  note tm = layout_unknown_without_matrix_prefix [OF sm, of std_world "[]" "()"]
  note td = layout_unknown_without_matrix_prefix [OF sd, of std_world "[]" "()"]
  have 1: "fst (extract_is_row_major ?f std_world) = Inr None"
    using tf [THEN conjunct1] by simp
  from tf [THEN conjunct2, THEN conjunct1, rule_format, OF hf] obtain w' where
    "fixed_sized_matrix_to_string ?f std_world =
       (case print_raw_matrix (GetValueForExpressionPath ?f ''.m_storage.m_data.array'') 2 2 None of
          Inl e \<Rightarrow> Inl e | Inr s \<Rightarrow> Inr (Some s), w')"
    using nf by auto
  then have 2: "fst (fixed_sized_matrix_to_string ?f std_world)
     = Inr (Some (''rows: 2, cols: 2, is_row_major: None'' @ [CHR 0x0A]
                  @ ''[ 1 3;'' @ [CHR 0x0A] @ ''  2 4;'' @ [CHR 0x0A] @ '' ]'' @ [CHR 0x0A]))"
    by (simp add: pf)
  from tm [THEN conjunct2, THEN conjunct1, rule_format, OF hm] obtain w' where
    "fixed_sized_matrix_to_string ?m std_world =
       (case print_raw_matrix (GetValueForExpressionPath ?m ''.m_storage.m_data.array'')
               (int (GetNumChildren (GetValueForExpressionPath ?m ''.m_storage.m_data.array''))) 1 None of
          Inl e \<Rightarrow> Inl e | Inr s \<Rightarrow> Inr (Some s), w')"
    using nm by auto
  then have 3: "fst (fixed_sized_matrix_to_string ?m std_world)
     = Inr (Some (''rows: 4, cols: 1, is_row_major: None'' @ [CHR 0x0A]
                  @ ''[ 1;'' @ [CHR 0x0A] @ ''  2;'' @ [CHR 0x0A] @ ''  3;'' @ [CHR 0x0A]
                  @ ''  4;'' @ [CHR 0x0A] @ '' ]'' @ [CHR 0x0A]))"
    by (simp add: pm)
  from td [THEN conjunct2, THEN conjunct2, THEN conjunct1, rule_format, OF hd] obtain w' where
    "dynamically_sized_matrix_to_string ?d std_world =
       (case print_raw_matrix (GetValueForExpressionPath ?d ''.m_storage.m_data'') 2 2 None of
          Inl e \<Rightarrow> Inl e | Inr s \<Rightarrow> Inr (Some s), w')"
    by auto
  then have 4: "fst (dynamically_sized_matrix_to_string ?d std_world)
     = Inr (Some (''rows: 2, cols: 2, is_row_major: None'' @ [CHR 0x0A]
                  @ ''[ 1 3;'' @ [CHR 0x0A] @ ''  2 4;'' @ [CHR 0x0A] @ '' ]'' @ [CHR 0x0A]))"
    by (simp add: pd)
  from s room 1 2 3 4 show ?thesis by blast
qed

text \<open>
  An \<open>Eigen::Array\<close> whose scalar type is an \<open>Eigen::Matrix\<close> has the prefix in its
  type name: the pattern matches inside the scalar type, and the array is classified
  column-major from the inner matrix's fourth parameter.
\<close>

theorem array_of_matrix_counterexample:
  "prefix ''Eigen::Array<'' ''Eigen::Array<Eigen::Matrix<double, 3, 1, 0, 3, 1>, -1, 1, 0, -1, 1>''
   \<and> extract_is_row_major
        (example_valobj ''Eigen::Array<Eigen::Matrix<double, 3, 1, 0, 3, 1>, -1, 1, 0, -1, 1>''
           invalid_sbvalue (pointer_buffer []) (Inr 0) (Inr 1)) std_world
       = (Inr (Some False), std_world)
   \<and> fst (format_matrix
        (example_valobj ''Eigen::Array<Eigen::Matrix<double, 3, 1, 0, 3, 1>, -1, 1, 0, -1, 1>''
           invalid_sbvalue (pointer_buffer []) (Inr 0) (Inr 1)) () std_world)
       = Inr (Some (''rows: 0, cols: 1, is_row_major: False'' @ [CHR 0x0A] @ ''[ ]'' @ [CHR 0x0A]))"
  by (intro conjI; code_simp)

section \<open>The dispatcher and the storage variants\<close>

text \<open>
  C7.  \<open>format_matrix\<close> is \<open>fixed_sized_matrix_to_string\<close> when the value at
  \<open>.m_storage.m_data.array\<close> is valid; otherwise it is
  \<open>dynamically_sized_matrix_to_string\<close> when the type of the value at
  \<open>.m_storage.m_data\<close> is a pointer type; otherwise it returns the value's default
  summary as it is and changes nothing.
\<close>

theorem format_matrix_dispatch:
  "(IsValid (GetValueForExpressionPath v ''.m_storage.m_data.array'') \<longrightarrow>
      format_matrix v d = fixed_sized_matrix_to_string v)
   \<and> (\<not> IsValid (GetValueForExpressionPath v ''.m_storage.m_data.array'')
       \<and> IsPointerType (GetValueForExpressionPath v ''.m_storage.m_data'') \<longrightarrow>
      format_matrix v d = dynamically_sized_matrix_to_string v)
   \<and> (\<not> IsValid (GetValueForExpressionPath v ''.m_storage.m_data.array'')
       \<and> \<not> IsPointerType (GetValueForExpressionPath v ''.m_storage.m_data'') \<longrightarrow>
      format_matrix v d w = (Inr (GetSummary v), w))"
  by (simp add: format_matrix_def io_return_def)

theorem format_matrix_dispatch_witness:
  "format_matrix (example_valobj ''Eigen::Matrix<int, 2, 2, 0, 2, 2>'' (list_buffer [''1'', ''2'', ''3'', ''4'']) invalid_sbvalue (Inr 2) (Inr 2)) ()
     = fixed_sized_matrix_to_string (example_valobj ''Eigen::Matrix<int, 2, 2, 0, 2, 2>'' (list_buffer [''1'', ''2'', ''3'', ''4'']) invalid_sbvalue (Inr 2) (Inr 2))
   \<and> format_matrix (example_valobj ''Eigen::Matrix<int, -1, -1, 0, -1, -1>'' invalid_sbvalue (pointer_buffer [''1'', ''2'', ''3'', ''4'']) (Inr 2) (Inr 2)) ()
     = dynamically_sized_matrix_to_string (example_valobj ''Eigen::Matrix<int, -1, -1, 0, -1, -1>'' invalid_sbvalue (pointer_buffer [''1'', ''2'', ''3'', ''4'']) (Inr 2) (Inr 2))
   \<and> format_matrix (example_valobj ''Eigen::Matrix<int, 2, 2, 0, 2, 2>'' invalid_sbvalue invalid_sbvalue (Inr 2) (Inr 2)) () std_world
     = (Inr (Some ''default summary''), std_world)"
  using format_matrix_dispatch
    [of "example_valobj ''Eigen::Matrix<int, 2, 2, 0, 2, 2>'' (list_buffer [''1'', ''2'', ''3'', ''4'']) invalid_sbvalue (Inr 2) (Inr 2)" "()" std_world]
    format_matrix_dispatch
    [of "example_valobj ''Eigen::Matrix<int, -1, -1, 0, -1, -1>'' invalid_sbvalue (pointer_buffer [''1'', ''2'', ''3'', ''4'']) (Inr 2) (Inr 2)" "()" std_world]
    format_matrix_dispatch
    [of "example_valobj ''Eigen::Matrix<int, 2, 2, 0, 2, 2>'' invalid_sbvalue invalid_sbvalue (Inr 2) (Inr 2)" "()" std_world]
  by (simp add: example_valobj_def list_buffer_def pointer_buffer_def invalid_sbvalue_def)

text \<open>
  What \<open>dynamically_sized_matrix_to_string\<close> probes is the child of the matrix
  object at index rows times cols, not an element of the buffer it renders.  With valid
  storage, room for the context manager and rows and cols evaluated: when that read
  raises, the exception is caught, the function returns \<open>[uninitialized]\<close> and
  prints nothing; when it returns, the layout is detected and the buffer is rendered with
  the evaluated rows and cols.
\<close>

lemma probe_of_the_matrix_object:
  assumes "descriptors_available w"
    and "IsValid (GetValueForExpressionPath v ''.m_storage.m_data'')"
    and "EvaluateExpression v (GetExpressionPath v @ ''.rows()'') = Inr rows"
    and "EvaluateExpression v (GetExpressionPath v @ ''.cols()'') = Inr cols"
  shows "(\<forall>e. GetChildValue v (rows * cols) = Inl e \<longrightarrow>
            fst (dynamically_sized_matrix_to_string v w) = Inr (Some ''[uninitialized]'')
            \<and> console (snd (dynamically_sized_matrix_to_string v w)) = console w)
       \<and> (\<forall>x. GetChildValue v (rows * cols) = Inr x \<longrightarrow>
            (\<exists>w'. console w' = console w \<and>
               dynamically_sized_matrix_to_string v w =
                 io_bind (extract_is_row_major v) (\<lambda>is_row_major.
                 io_bind (io_lift (print_raw_matrix (GetValueForExpressionPath v ''.m_storage.m_data'')
                                     rows cols is_row_major)) (\<lambda>out.
                 io_return (Some out))) w'))"
proof -
  from read_rows_cols_ok [OF assms(1,3,4)] obtain w' where
    r: "read_rows_cols v (GetExpressionPath v) w = (Inr (rows, cols), w')" and c: "console w' = console w"
    by blast
  show ?thesis
  proof (intro conjI allI impI)
    fix e assume "GetChildValue v (rows * cols) = Inl e"
    then show "fst (dynamically_sized_matrix_to_string v w) = Inr (Some ''[uninitialized]'')"
      "console (snd (dynamically_sized_matrix_to_string v w)) = console w"
      using assms(2) r c
      by (simp_all add: dynamically_sized_matrix_to_string_def Let_def io_bind_def io_return_def)
  next
    fix x assume "GetChildValue v (rows * cols) = Inr x"
    then have "dynamically_sized_matrix_to_string v w =
                 io_bind (extract_is_row_major v) (\<lambda>is_row_major.
                 io_bind (io_lift (print_raw_matrix (GetValueForExpressionPath v ''.m_storage.m_data'')
                                     rows cols is_row_major)) (\<lambda>out.
                 io_return (Some out))) w'"
      using assms(2) r
      by (simp add: dynamically_sized_matrix_to_string_def Let_def io_bind_def [of "read_rows_cols v (GetExpressionPath v)"])
    with c show "\<exists>w'. console w' = console w \<and>
               dynamically_sized_matrix_to_string v w =
                 io_bind (extract_is_row_major v) (\<lambda>is_row_major.
                 io_bind (io_lift (print_raw_matrix (GetValueForExpressionPath v ''.m_storage.m_data'')
                                     rows cols is_row_major)) (\<lambda>out.
                 io_return (Some out))) w'"
      by blast
  qed
qed


text \<open>
  C1, as amended.  In \<open>fixed_sized_matrix_to_string\<close>, with valid storage, room
  for the context manager and rows and cols evaluated, when rows times cols is not the number of children of the inline
  array, the function prints the diagnostic and then detects the layout and renders the
  array with as many rows as it has children and one column.
\<close>

theorem fixed_size_mismatch_fallback:
  assumes "descriptors_available w"
    and "IsValid (GetValueForExpressionPath v ''.m_storage.m_data.array'')"
    and "EvaluateExpression v (GetExpressionPath v @ ''.rows()'') = Inr rows"
    and "EvaluateExpression v (GetExpressionPath v @ ''.cols()'') = Inr cols"
    and "rows * cols \<noteq> int (GetNumChildren (GetValueForExpressionPath v ''.m_storage.m_data.array''))"
  shows "\<exists>w'. console w' = console w
                  @ [''error: eigen data formatter: could not infer data layout. printing raw data instead'']
           \<and> fixed_sized_matrix_to_string v w =
               io_bind (extract_is_row_major v) (\<lambda>is_row_major.
               io_bind (io_lift (print_raw_matrix (GetValueForExpressionPath v ''.m_storage.m_data.array'')
                          (int (GetNumChildren (GetValueForExpressionPath v ''.m_storage.m_data.array'')))
                          1 is_row_major)) (\<lambda>out.
               io_return (Some out))) w'"
proof -
  from read_rows_cols_ok [OF assms(1,3,4)] obtain w1 where
    r: "read_rows_cols v (GetExpressionPath v) w = (Inr (rows, cols), w1)" and c: "console w1 = console w"
    by blast
  let ?w' = "w1\<lparr>console := console w1
                  @ [''error: eigen data formatter: could not infer data layout. printing raw data instead'']\<rparr>"
  have "fixed_sized_matrix_to_string v w =
               io_bind (extract_is_row_major v) (\<lambda>is_row_major.
               io_bind (io_lift (print_raw_matrix (GetValueForExpressionPath v ''.m_storage.m_data.array'')
                          (int (GetNumChildren (GetValueForExpressionPath v ''.m_storage.m_data.array'')))
                          1 is_row_major)) (\<lambda>out.
               io_return (Some out))) ?w'"
    using assms(2,5) r
    by (simp add: fixed_sized_matrix_to_string_def Let_def io_bind_def py_print_def io_return_def)
  moreover have "console ?w' = console w
                  @ [''error: eigen data formatter: could not infer data layout. printing raw data instead'']"
    using c by simp
  ultimately show ?thesis by blast
qed

theorem fixed_size_mismatch_fallback_witness:
  "fixed_sized_matrix_to_string
     (example_valobj ''Eigen::Matrix<int, 6, 1, 0, 6, 1>''
        (list_buffer [''1'', ''2'', ''3'', ''4'', ''5'', ''6'']) invalid_sbvalue (Inr 5) (Inr 1)) std_world
   = (Inr (Some (''rows: 6, cols: 1, is_row_major: False'' @ [CHR 0x0A]
                 @ ''[ 1;'' @ [CHR 0x0A] @ ''  2;'' @ [CHR 0x0A] @ ''  3;'' @ [CHR 0x0A]
                 @ ''  4;'' @ [CHR 0x0A] @ ''  5;'' @ [CHR 0x0A] @ ''  6;'' @ [CHR 0x0A]
                 @ '' ]'' @ [CHR 0x0A])),
      snd (fixed_sized_matrix_to_string
     (example_valobj ''Eigen::Matrix<int, 6, 1, 0, 6, 1>''
        (list_buffer [''1'', ''2'', ''3'', ''4'', ''5'', ''6'']) invalid_sbvalue (Inr 5) (Inr 1)) std_world))
   \<and> console (snd (fixed_sized_matrix_to_string
     (example_valobj ''Eigen::Matrix<int, 6, 1, 0, 6, 1>''
        (list_buffer [''1'', ''2'', ''3'', ''4'', ''5'', ''6'']) invalid_sbvalue (Inr 5) (Inr 1)) std_world))
     = [''error: eigen data formatter: could not infer data layout. printing raw data instead'']"
proof -
  let ?v = "example_valobj ''Eigen::Matrix<int, 6, 1, 0, 6, 1>''
        (list_buffer [''1'', ''2'', ''3'', ''4'', ''5'', ''6'']) invalid_sbvalue (Inr 5) (Inr 1)"
  have a: "descriptors_available std_world"
    "IsValid (GetValueForExpressionPath ?v ''.m_storage.m_data.array'')"
    "EvaluateExpression ?v (GetExpressionPath ?v @ ''.rows()'') = Inr 5"
    "EvaluateExpression ?v (GetExpressionPath ?v @ ''.cols()'') = Inr 1"
    "5 * 1 \<noteq> int (GetNumChildren (GetValueForExpressionPath ?v ''.m_storage.m_data.array''))"
    by (code_simp, simp_all add: example_valobj_def list_buffer_def)
  have e: "extract_is_row_major ?v w = (Inr (Some False), w)" for w
    by (rule prod_eqI; code_simp)
  have p: "print_raw_matrix (GetValueForExpressionPath ?v ''.m_storage.m_data.array'')
             (int (GetNumChildren (GetValueForExpressionPath ?v ''.m_storage.m_data.array''))) 1 (Some False)
           = Inr (''rows: 6, cols: 1, is_row_major: False'' @ [CHR 0x0A]
                 @ ''[ 1;'' @ [CHR 0x0A] @ ''  2;'' @ [CHR 0x0A] @ ''  3;'' @ [CHR 0x0A]
                 @ ''  4;'' @ [CHR 0x0A] @ ''  5;'' @ [CHR 0x0A] @ ''  6;'' @ [CHR 0x0A]
                 @ '' ]'' @ [CHR 0x0A])"
    by code_simp
  from fixed_size_mismatch_fallback [OF a] obtain w' where
    "console w' = console std_world
                  @ [''error: eigen data formatter: could not infer data layout. printing raw data instead'']"
    "fixed_sized_matrix_to_string ?v std_world =
               io_bind (extract_is_row_major ?v) (\<lambda>is_row_major.
               io_bind (io_lift (print_raw_matrix (GetValueForExpressionPath ?v ''.m_storage.m_data.array'')
                          (int (GetNumChildren (GetValueForExpressionPath ?v ''.m_storage.m_data.array'')))
                          1 is_row_major)) (\<lambda>out.
               io_return (Some out))) w'"
    by blast
  then show ?thesis
    by (simp add: io_bind_def e p io_lift_def io_return_def std_world_def)
qed

text \<open>
  The dynamic variant has no such check.  With six children behind the pointer, rows
  evaluating to 5 and cols to 1, it renders five rows of one column and prints nothing.
\<close>

theorem dynamic_mismatch_counterexample:
  "EvaluateExpression (example_valobj ''Eigen::Matrix<int, -1, -1, 0, -1, -1>'' invalid_sbvalue
        (pointer_buffer [''1'', ''2'', ''3'', ''4'', ''5'', ''6'']) (Inr 5) (Inr 1)) ''m.rows()'' = Inr 5
   \<and> EvaluateExpression (example_valobj ''Eigen::Matrix<int, -1, -1, 0, -1, -1>'' invalid_sbvalue
        (pointer_buffer [''1'', ''2'', ''3'', ''4'', ''5'', ''6'']) (Inr 5) (Inr 1)) ''m.cols()'' = Inr 1
   \<and> GetNumChildren (GetValueForExpressionPath
        (example_valobj ''Eigen::Matrix<int, -1, -1, 0, -1, -1>'' invalid_sbvalue
        (pointer_buffer [''1'', ''2'', ''3'', ''4'', ''5'', ''6'']) (Inr 5) (Inr 1)) ''.m_storage.m_data'') = 6
   \<and> fst (dynamically_sized_matrix_to_string
        (example_valobj ''Eigen::Matrix<int, -1, -1, 0, -1, -1>'' invalid_sbvalue
        (pointer_buffer [''1'', ''2'', ''3'', ''4'', ''5'', ''6'']) (Inr 5) (Inr 1)) std_world)
     = Inr (Some (''rows: 5, cols: 1, is_row_major: False'' @ [CHR 0x0A]
                 @ ''[ 1;'' @ [CHR 0x0A] @ ''  2;'' @ [CHR 0x0A] @ ''  3;'' @ [CHR 0x0A]
                 @ ''  4;'' @ [CHR 0x0A] @ ''  5;'' @ [CHR 0x0A]
                 @ '' ]'' @ [CHR 0x0A]))
   \<and> console (snd (dynamically_sized_matrix_to_string
        (example_valobj ''Eigen::Matrix<int, -1, -1, 0, -1, -1>'' invalid_sbvalue
        (pointer_buffer [''1'', ''2'', ''3'', ''4'', ''5'', ''6'']) (Inr 5) (Inr 1)) std_world)) = []"
  by (intro conjI; code_simp)

section \<open>Rendering a buffer as a grid\<close>

subsection \<open>Ranges and cell indices\<close>

lemma upto_as_map: "[a..a + int n - 1] = map (\<lambda>k. a + int k) [0..<n]"
proof (induction n)
  case 0
  then show ?case by simp
next
  case (Suc n)
  have "[a..a + int (Suc n) - 1] = [a..a + int n - 1] @ [a + int n]"
    using upto_rec2 [of a "a + int n"] by simp
  with Suc show ?case by simp
qed

lemma py_range_as_map: "py_range a (a + int n) = map (\<lambda>k. a + int k) [0..<n]"
  by (simp add: py_range_def upto_as_map)

lemma range_length_stride:
  assumes "j < R"
  shows "range_length (int j) (int R * int C) (int R) = C"
proof (cases C)
  case 0
  then show ?thesis using assms by (simp add: range_length_def)
next
  case (Suc c)
  have lt: "int j < int R * int (Suc c)"
  proof -
    have "j < R * Suc c" using assms by (simp add: trans_less_add1)
    then show ?thesis by (metis of_nat_less_iff of_nat_mult)
  qed
  have "int R * int (Suc c) - int j - 1 = (int R - int j - 1) + int c * int R"
    by (simp add: algebra_simps)
  then have "(int R * int (Suc c) - int j - 1) div int R = (int R - int j - 1) div int R + int c"
    using assms by (simp only: div_mult_self1 [of "int R"])
  moreover have "(int R - int j - 1) div int R = 0"
    using assms by (simp add: div_pos_pos_trivial)
  ultimately have "(int R * int (Suc c) - int j - 1) div int R + 1 = int (Suc c)"
    by simp
  with lt assms Suc show ?thesis
    by (simp add: range_length_def del: of_nat_Suc)
qed

lemma row_element_row_major:
  "row_element v (int j) (int R) (int C) (Some True)
   = map (\<lambda>k. GetChildValue v (int (j * C + k))) [0..<C]"
proof -
  have "(int j + 1) * int C = int j * int C + int C" by (simp add: algebra_simps)
  then show ?thesis
    by (simp add: row_element_def py_range_as_map comp_def)
qed

lemma row_element_strided:
  assumes "j < R" and "order \<noteq> Some True"
  shows "row_element v (int j) (int R) (int C) order
         = map (\<lambda>k. GetChildValue v (int (j + k * R))) [0..<C]"
  using assms
  by (simp add: row_element_def py_range_step_def range_length_stride comp_def)

lemma cell_in_range_row_major:
  assumes "j < R" and "k < C"
  shows "j * C + k < R * (C :: nat)"
proof -
  have "j * C + k < j * C + C" using assms by simp
  also have "\<dots> = Suc j * C" by simp
  also have "\<dots> \<le> R * C" using assms by (intro mult_le_mono1) simp
  finally show ?thesis .
qed

lemma cell_in_range_strided:
  assumes "j < R" and "k < C"
  shows "j + k * R < R * (C :: nat)"
  using cell_in_range_row_major [OF assms(2,1)] by (simp add: mult.commute add.commute)

lemma stride_below_iff:
  assumes "j < R"
  shows "(j + k * R < R * (C :: nat)) = (k < C)"
proof
  assume h: "j + k * R < R * C"
  show "k < C"
  proof (rule ccontr)
    assume "\<not> k < C"
    then have "C \<le> k" by simp
    then have a: "C * R \<le> k * R" by (rule mult_le_mono1)
    have "R * C = C * R" by (rule mult.commute)
    with a h show False by linarith
  qed
next
  assume "k < C"
  with assms show "j + k * R < R * C" by (rule cell_in_range_strided)
qed

lemma range_length_stride_int:
  assumes "j < R"
  shows "range_length (int j) (int R * cols) (int R) = nat cols"
proof (cases "0 \<le> cols")
  case True
  then obtain C where "cols = int C" by (auto dest: zero_le_imp_eq_int)
  with range_length_stride [OF assms, of C] show ?thesis by simp
next
  case False
  then have "int R * cols \<le> 0" using assms by (simp add: mult_le_0_iff)
  then have "\<not> int j < int R * cols" by simp
  with False assms show ?thesis by (simp add: range_length_def)
qed

lemma stride_below_iff_int:
  assumes "j < R"
  shows "(int j + int k * int R < int R * cols) = (k < nat cols)"
proof (cases "0 \<le> cols")
  case True
  then obtain C where c: "cols = int C" by (auto dest: zero_le_imp_eq_int)
  have "(int j + int k * int R < int R * int C) = (int (j + k * R) < int (R * C))" by simp
  also have "\<dots> = (j + k * R < R * C)" by (simp only: of_nat_less_iff)
  also have "\<dots> = (k < C)" by (rule stride_below_iff [OF assms])
  finally show ?thesis using c by simp
next
  case False
  then have "int R * cols \<le> 0" using assms by (simp add: mult_le_0_iff)
  moreover have "0 \<le> int j + int k * int R" by simp
  ultimately have "\<not> int j + int k * int R < int R * cols" by linarith
  with False show ?thesis by simp
qed

subsection \<open>The loops of \<open>print_raw_matrix\<close>\<close>

lemma Max_insert_max:
  "finite S \<Longrightarrow> Max (insert (max p l) S) = Max (insert (p :: nat) (insert l S))"
  by (cases "S = {}") (simp_all add: max.assoc)

lemma padding_loop_reads:
  assumes "\<forall>i\<in>set ixs. i < length xs"
    and "\<forall>i<length xs. GetChildValue v (int i) = Inr (Some (xs ! i))"
  shows "padding_loop v (map int ixs) p
         = Inr (Max (insert p ((\<lambda>i. length (xs ! i)) ` set ixs)))"
  using assms(1)
proof (induction ixs arbitrary: p)
  case Nil
  then show ?case by simp
next
  case (Cons i ixs)
  then have "GetChildValue v (int i) = Inr (Some (xs ! i))" using assms(2) by simp
  moreover have "padding_loop v (map int ixs) (max p (length (xs ! i)))
                 = Inr (Max (insert (max p (length (xs ! i))) ((\<lambda>i. length (xs ! i)) ` set ixs)))"
    using Cons by simp
  ultimately show ?case
    by (simp add: str_value_def Max_insert_max)
qed

lemma lengths_by_index: "(\<lambda>i. length (xs ! i)) ` set [0..<length xs] = length ` set xs"
proof -
  have "set xs = (\<lambda>i. xs ! i) ` set [0..<length xs]"
    by (metis map_nth set_map)
  then show ?thesis by (simp add: image_image)
qed

lemma join_rjust_reads:
  assumes "\<forall>i\<in>set ixs. i < length xs"
    and "\<forall>i<length xs. GetChildValue v (int i) = Inr (Some (xs ! i))"
  shows "join_rjust W (map (\<lambda>i. GetChildValue v (int i)) ixs)
         = Inr (concat (map (\<lambda>i. rjust W (xs ! i)) ixs))"
  using assms(1)
proof (induction ixs)
  case Nil
  then show ?case by simp
next
  case (Cons i ixs)
  then have "GetChildValue v (int i) = Inr (Some (xs ! i))" using assms(2) by simp
  with Cons show ?case by simp
qed

lemma join_rjust_cells:
  assumes "\<forall>k<n. f k < length xs"
    and "\<forall>i<length xs. GetChildValue v (int i) = Inr (Some (xs ! i))"
  shows "join_rjust W (map (\<lambda>k. GetChildValue v (int (f k))) [0..<n])
         = Inr (concat (map (\<lambda>k. rjust W (xs ! f k)) [0..<n]))"
proof -
  have "\<forall>i\<in>set (map f [0..<n]). i < length xs" using assms(1) by auto
  from join_rjust_reads [OF this assms(2), of W] show ?thesis
    by (simp add: comp_def)
qed

lemma rows_loop_lines:
  assumes "\<forall>j\<in>set js. join_rjust (padding + 1) (row_element v (int j) rows cols order) = Inr (line j)"
  shows "rows_loop v rows cols order padding (map int js) out
         = Inr (out @ concat (map (\<lambda>j. (if j \<noteq> 0 then '' '' else '''') @ line j @ '';'' @ [CHR 0x0A]) js))"
  using assms
proof (induction js arbitrary: out)
  case Nil
  then show ?case by simp
next
  case (Cons j js)
  then show ?case by simp
qed

lemma print_raw_matrix_nat:
  assumes cap: "R * C \<le> 100"
    and len: "length xs = R * C"
    and reads: "\<forall>i<length xs. GetChildValue v (int i) = Inr (Some (xs ! i))"
  shows "print_raw_matrix v (int R) (int C) order =
     Inr (header (int R) (int C) order
          @ concat (map (\<lambda>j. (if j \<noteq> 0 then '' '' else '''')
                      @ concat (map (\<lambda>k. rjust (Max (insert 1 (length ` set xs)) + 1)
                                        (xs ! (if order = Some True then j * C + k else j + k * R)))
                                  [0..<C])
                      @ '';'' @ [CHR 0x0A]) [0..<R])
          @ '' ]'' @ [CHR 0x0A])"
proof -
  let ?W = "Max (insert 1 (length ` set xs)) + 1"
  let ?line = "\<lambda>j. concat (map (\<lambda>k. rjust ?W
                        (xs ! (if order = Some True then j * C + k else j + k * R))) [0..<C])"
  have prod: "int R * int C = int (R * C)" by simp
  have r0: "py_range 0 (int (R * C)) = map int [0..<R * C]"
    using py_range_as_map [of 0 "R * C"] by simp
  have r1: "py_range 0 (int R) = map int [0..<R]"
    using py_range_as_map [of 0 R] by simp
  have pad: "padding_loop v (py_range 0 (int R * int C)) 1 = Inr (Max (insert 1 (length ` set xs)))"
    unfolding prod r0
    using padding_loop_reads [of "[0..<R * C]" xs v 1] reads len lengths_by_index [of xs]
    by simp
  have lines: "\<forall>j\<in>set [0..<R].
      join_rjust (Max (insert 1 (length ` set xs)) + 1) (row_element v (int j) (int R) (int C) order)
      = Inr (?line j)"
  proof
    fix j assume "j \<in> set [0..<R]"
    then have j: "j < R" by simp
    show "join_rjust (Max (insert 1 (length ` set xs)) + 1) (row_element v (int j) (int R) (int C) order)
      = Inr (?line j)"
    proof (cases "order = Some True")
      case True
      have in_range: "\<forall>k<C. j * C + k < length xs"
        using cell_in_range_row_major [OF j] len by simp
      from join_rjust_cells [OF in_range reads, of ?W] True show ?thesis
        by (simp add: row_element_row_major)
    next
      case False
      have in_range: "\<forall>k<C. j + k * R < length xs"
        using cell_in_range_strided [OF j] len by simp
      from join_rjust_cells [OF in_range reads, of ?W] False show ?thesis
        by (simp add: row_element_strided [OF j False])
    qed
  qed
  have "int (R * C) \<le> int 100" using cap by (simp only: of_nat_le_iff)
  then have "\<not> 100 < int R * int C" by simp
  then show ?thesis
    unfolding print_raw_matrix_def
    by (simp only: if_False pad sum.case r1 rows_loop_lines [OF lines] append_assoc)
qed

lemma list_buffer_reads:
  "\<forall>i<length xs. GetChildValue (list_buffer xs) (int i) = Inr (Some (xs ! i))"
  by (simp add: list_buffer_def)

subsection \<open>Row traversal\<close>

text \<open>
  C2.  With row-major ordering, \<open>_row_element\<close> yields for row \<open>r\<close> the values
  of the children at the indices from \<open>r * cols\<close> up to, not including,
  \<open>(r + 1) * cols\<close>.  With column-major ordering and \<open>0 \<le> r < rows\<close>, as in
  every call the renderer makes, it yields the values of the children at
  \<open>r, r + rows, r + 2 * rows, \<dots>\<close>, which are the indices of that form below
  \<open>rows * cols\<close>.  The buffer \<open>1, 2, 3, 4\<close> with two rows and two columns is
  rendered as the rows \<open>1 2\<close> and \<open>3 4\<close> when row-major and as \<open>1 3\<close> and
  \<open>2 4\<close> when column-major.
\<close>

theorem row_element_traversal:
  "row_element v r rows cols (Some True)
     = map (GetChildValue v) [r * cols..(r + 1) * cols - 1]
   \<and> (0 \<le> r \<and> r < rows \<longrightarrow>
        row_element v r rows cols (Some False)
          = map (\<lambda>k. GetChildValue v (r + int k * rows)) [0..<nat cols]
        \<and> (\<forall>k. (r + int k * rows < rows * cols) = (k < nat cols)))
   \<and> print_raw_matrix (list_buffer [''1'', ''2'', ''3'', ''4'']) 2 2 (Some True)
     = Inr (''rows: 2, cols: 2, is_row_major: True'' @ [CHR 0x0A]
            @ ''[ 1 2;'' @ [CHR 0x0A] @ ''  3 4;'' @ [CHR 0x0A] @ '' ]'' @ [CHR 0x0A])
   \<and> print_raw_matrix (list_buffer [''1'', ''2'', ''3'', ''4'']) 2 2 (Some False)
     = Inr (''rows: 2, cols: 2, is_row_major: False'' @ [CHR 0x0A]
            @ ''[ 1 3;'' @ [CHR 0x0A] @ ''  2 4;'' @ [CHR 0x0A] @ '' ]'' @ [CHR 0x0A])"
proof (intro conjI impI)
  show "row_element v r rows cols (Some True)
     = map (GetChildValue v) [r * cols..(r + 1) * cols - 1]"
    by (simp add: row_element_def py_range_def)
next
  assume h: "0 \<le> r \<and> r < rows"
  then obtain j where j: "r = int j" by (auto dest: zero_le_imp_eq_int)
  from h have "0 \<le> rows" by simp
  then obtain R where R: "rows = int R" by (auto dest: zero_le_imp_eq_int)
  with h j have jR: "j < R" by simp
  show "row_element v r rows cols (Some False)
          = map (\<lambda>k. GetChildValue v (r + int k * rows)) [0..<nat cols]"
    using jR
    by (simp add: row_element_def py_range_step_def range_length_stride_int j R comp_def)
  show "\<forall>k. (r + int k * rows < rows * cols) = (k < nat cols)"
    using stride_below_iff_int [OF jR] by (simp add: j R)
next
  show "print_raw_matrix (list_buffer [''1'', ''2'', ''3'', ''4'']) 2 2 (Some True)
     = Inr (''rows: 2, cols: 2, is_row_major: True'' @ [CHR 0x0A]
            @ ''[ 1 2;'' @ [CHR 0x0A] @ ''  3 4;'' @ [CHR 0x0A] @ '' ]'' @ [CHR 0x0A])"
    by code_simp
next
  show "print_raw_matrix (list_buffer [''1'', ''2'', ''3'', ''4'']) 2 2 (Some False)
     = Inr (''rows: 2, cols: 2, is_row_major: False'' @ [CHR 0x0A]
            @ ''[ 1 3;'' @ [CHR 0x0A] @ ''  2 4;'' @ [CHR 0x0A] @ '' ]'' @ [CHR 0x0A])"
    by code_simp
qed

theorem row_element_traversal_witness:
  "row_element (list_buffer [''1'', ''2'', ''3'', ''4'']) 1 2 2 (Some True) = [Inr (Some ''3''), Inr (Some ''4'')]
   \<and> row_element (list_buffer [''1'', ''2'', ''3'', ''4'']) 1 2 2 (Some False) = [Inr (Some ''2''), Inr (Some ''4'')]"
proof -
  note t = row_element_traversal [of "list_buffer [''1'', ''2'', ''3'', ''4'']" 1 2 2]
  have h: "(0::int) \<le> 1 \<and> (1::int) < 2" by simp
  note t1 = t [THEN conjunct1]
  note t2 = t [THEN conjunct2, THEN conjunct1, THEN mp, OF h, THEN conjunct1]
  have "row_element (list_buffer [''1'', ''2'', ''3'', ''4'']) 1 2 2 (Some True) = [Inr (Some ''3''), Inr (Some ''4'')]"
    unfolding t1 by code_simp
  moreover have "row_element (list_buffer [''1'', ''2'', ''3'', ''4'']) 1 2 2 (Some False) = [Inr (Some ''2''), Inr (Some ''4'')]"
    unfolding t2 by code_simp
  ultimately show ?thesis by blast
qed

subsection \<open>The shape of the output\<close>

text \<open>
  C3.  With rows and cols not negative, their product at most 100, and every element of
  the buffer \<open>xs\<close> readable as a string, \<open>print_raw_matrix\<close> returns the header
  line, then \<open>[\<close>, then one group per row, then \<open> ]\<close> and a newline.  A group
  holds \<open>cols\<close> cells and ends with \<open>;\<close> and a newline; every group but the
  first starts with one more space.  A cell is its element padded with spaces on the left
  to one width for the whole grid, the longest element's length (at least 1) plus one; no
  element is as long as the width, so every cell has exactly that length.  When the
  buffer is not empty and no element is the empty string, the width is the greatest
  length plus one.  The element of row \<open>j\<close>, column \<open>k\<close> is at index
  \<open>j * cols + k\<close> when row-major and at \<open>j + k * rows\<close> otherwise.
\<close>

theorem print_raw_matrix_grid:
  assumes "0 \<le> rows" and "0 \<le> cols" and "rows * cols \<le> 100"
    and "length xs = nat (rows * cols)"
    and "\<forall>i<length xs. GetChildValue v (int i) = Inr (Some (xs ! i))"
  shows "let width = Max (insert 1 (length ` set xs)) + 1;
             cell = (\<lambda>j k. xs ! (if order = Some True then j * nat cols + k else j + k * nat rows))
         in print_raw_matrix v rows cols order =
              Inr (''rows: '' @ str_int rows @ '', cols: '' @ str_int cols
                   @ '', is_row_major: '' @ str_bool_option order @ [CHR 0x0A]
                   @ ''[''
                   @ concat (map (\<lambda>j. (if j \<noteq> 0 then '' '' else '''')
                               @ concat (map (\<lambda>k. replicate (width - length (cell j k)) CHR '' '' @ cell j k)
                                           [0..<nat cols])
                               @ '';'' @ [CHR 0x0A]) [0..<nat rows])
                   @ '' ]'' @ [CHR 0x0A])
            \<and> (\<forall>x\<in>set xs. length x < width)
            \<and> (xs \<noteq> [] \<and> [] \<notin> set xs \<longrightarrow> width = Max (length ` set xs) + 1)"
proof -
  from assms(1) obtain R where R: "rows = int R" by (auto dest: zero_le_imp_eq_int)
  from assms(2) obtain C where C: "cols = int C" by (auto dest: zero_le_imp_eq_int)
  note RC = R C
  have len: "length xs = R * C" using assms(4) RC by (simp add: nat_mult_distrib)
  have "int (R * C) \<le> int 100" using assms(3) RC by simp
  then have cap: "R * C \<le> 100" by (simp only: of_nat_le_iff)
  have fin: "finite (length ` set xs)" by simp
  have 1: "\<forall>x\<in>set xs. length x < Max (insert 1 (length ` set xs)) + 1"
  proof
    fix x assume "x \<in> set xs"
    then have "length x \<le> Max (insert 1 (length ` set xs))" by (intro Max_ge) auto
    then show "length x < Max (insert 1 (length ` set xs)) + 1" by simp
  qed
  have 2: "Max (insert 1 (length ` set xs)) + 1 = Max (length ` set xs) + 1"
    if h: "xs \<noteq> [] \<and> [] \<notin> set xs"
  proof -
    from h obtain x where x: "x \<in> set xs" by (cases xs) auto
    with h have "x \<noteq> []" by auto
    then have "1 \<le> length x" by (cases x) auto
    also have "length x \<le> Max (length ` set xs)" using x by (intro Max_ge) auto
    finally have "max 1 (Max (length ` set xs)) = Max (length ` set xs)" by simp
    moreover have "length ` set xs \<noteq> {}" using x by auto
    ultimately show ?thesis by (simp add: Max_insert [OF fin])
  qed
  from print_raw_matrix_nat [OF cap len assms(5), of "order"] 1 2
  show ?thesis
    unfolding RC nat_int Let_def
    by (simp add: header_def rjust_def)
qed

theorem print_raw_matrix_grid_witness:
  "print_raw_matrix (list_buffer [''1'', ''-22'', ''3'', ''4'']) 2 2 None
     = Inr (''rows: 2, cols: 2, is_row_major: None'' @ [CHR 0x0A]
            @ ''[   1   3;'' @ [CHR 0x0A] @ ''  -22   4;'' @ [CHR 0x0A] @ '' ]'' @ [CHR 0x0A])
   \<and> print_raw_matrix (list_buffer [''1'', ''-22'', ''3'', ''4'']) 2 2 (Some True)
     = Inr (''rows: 2, cols: 2, is_row_major: True'' @ [CHR 0x0A]
            @ ''[   1 -22;'' @ [CHR 0x0A] @ ''    3   4;'' @ [CHR 0x0A] @ '' ]'' @ [CHR 0x0A])"
proof -
  have a: "(0::int) \<le> 2" "(2::int) * 2 \<le> 100"
    "length [''1'', ''-22'', ''3'', ''4''] = nat (2 * 2)"
    by simp_all
  note t = print_raw_matrix_grid [OF a(1) a(1) a(2) a(3) list_buffer_reads, unfolded Let_def]
  note n = t [of None, THEN conjunct1]
  note r = t [of "Some True", THEN conjunct1]
  have "print_raw_matrix (list_buffer [''1'', ''-22'', ''3'', ''4'']) 2 2 None
     = Inr (''rows: 2, cols: 2, is_row_major: None'' @ [CHR 0x0A]
            @ ''[   1   3;'' @ [CHR 0x0A] @ ''  -22   4;'' @ [CHR 0x0A] @ '' ]'' @ [CHR 0x0A])"
    unfolding n by code_simp
  moreover have "print_raw_matrix (list_buffer [''1'', ''-22'', ''3'', ''4'']) 2 2 (Some True)
     = Inr (''rows: 2, cols: 2, is_row_major: True'' @ [CHR 0x0A]
            @ ''[   1 -22;'' @ [CHR 0x0A] @ ''    3   4;'' @ [CHR 0x0A] @ '' ]'' @ [CHR 0x0A])"
    unfolding r by code_simp
  ultimately show ?thesis by blast
qed

section \<open>What the context manager leaves behind\<close>

text \<open>
  When descriptors 1 and 2 are open and the context manager has room, the \<open>with\<close>
  block around host calls returns what
  the body returned or raises what it raised, descriptors 1 and 2 are again what they
  were, and the two descriptors opened on the null device are closed.  The two duplicates
  that \<open>__init__\<close> saved are never closed: two descriptors that were free are now
  open on the files of descriptors 1 and 2.
\<close>

lemma with_suppress_table:
  assumes room: "descriptors_available w"
    and o1: "fd_lookup (fd_table w) 1 = Some f1" and o2: "fd_lookup (fd_table w) 2 = Some f2"
  shows "\<exists>w' c d. with_suppress_stdout_stderr (io_lift r) w = (r, w')
           \<and> console w' = console w
           \<and> c \<noteq> d \<and> fd_lookup (fd_table w) c = None \<and> fd_lookup (fd_table w) d = None
           \<and> (\<forall>n. fd_lookup (fd_table w') n =
                     (if n = c then Some f1 else if n = d then Some f2
                      else fd_lookup (fd_table w) n))"
proof -
  define t0 where "t0 = fd_table w"
  define L where "L = fd_limit w"
  define a where "a = lowest_free t0"
  define t1 where "t1 = fd_put t0 a (Some DevNull)"
  define b where "b = lowest_free t1"
  define t2 where "t2 = fd_put t1 b (Some DevNull)"
  define c where "c = lowest_free t2"
  define t3 where "t3 = fd_put t2 c (Some f1)"
  define d where "d = lowest_free t3"
  define t4 where "t4 = fd_put t3 d (Some f2)"
  define t5 where "t5 = fd_put t4 1 (Some DevNull)"
  define t6 where "t6 = fd_put t5 2 (Some DevNull)"
  define t7 where "t7 = fd_put t6 1 (Some f1)"
  define t8 where "t8 = fd_put t7 2 (Some f2)"
  define t9 where "t9 = fd_put t8 a None"
  define t10 where "t10 = fd_put t9 b None"
  note ts = t1_def t2_def t3_def t4_def t5_def t6_def t7_def t8_def t9_def t10_def
  have p1: "fd_lookup t0 1 = Some f1" and p2: "fd_lookup t0 2 = Some f2"
    using o1 o2 by (simp_all add: t0_def)
  have a_free: "fd_lookup t0 a = None" unfolding a_def by (rule lowest_free_is_free)
  have b_free: "fd_lookup t1 b = None" unfolding b_def by (rule lowest_free_is_free)
  have c_free: "fd_lookup t2 c = None" unfolding c_def by (rule lowest_free_is_free)
  have d_free: "fd_lookup t3 d = None" unfolding d_def by (rule lowest_free_is_free)
  have a12: "a \<noteq> 1" "a \<noteq> 2" using a_free p1 p2 by auto
  have b12: "b \<noteq> 1" "b \<noteq> 2" "b \<noteq> a" and b0: "fd_lookup t0 b = None"
    using b_free p1 p2 by (auto simp: t1_def fd_lookup_put split: if_splits)
  have c12: "c \<noteq> 1" "c \<noteq> 2" "c \<noteq> a" "c \<noteq> b" and c0: "fd_lookup t0 c = None"
    using c_free p1 p2 by (auto simp: t1_def t2_def fd_lookup_put split: if_splits)
  have d12: "d \<noteq> 1" "d \<noteq> 2" "d \<noteq> a" "d \<noteq> b" "d \<noteq> c" and d0: "fd_lookup t0 d = None"
    using d_free p1 p2 by (auto simp: t1_def t2_def t3_def fd_lookup_put split: if_splits)
  have n1: "nth_free t1 k = nth_free t0 (Suc k)" for k
    unfolding t1_def a_def by (rule nth_free_after_alloc)
  have n2: "nth_free t2 k = nth_free t1 (Suc k)" for k
    unfolding t2_def b_def by (rule nth_free_after_alloc)
  have n3: "nth_free t3 k = nth_free t2 (Suc k)" for k
    unfolding t3_def c_def by (rule nth_free_after_alloc)
  have a_nth: "a = nth_free t0 0" unfolding a_def by (rule lowest_free_nth_free)
  have b_nth: "b = nth_free t0 (Suc 0)"
    unfolding b_def by (simp only: lowest_free_nth_free n1)
  have c_nth: "c = nth_free t0 (Suc (Suc 0))"
    unfolding c_def by (simp only: lowest_free_nth_free n2 n1)
  have d_nth: "d = nth_free t0 (Suc (Suc (Suc 0)))"
    unfolding d_def by (simp only: lowest_free_nth_free n3 n2 n1)
  have "nth_free t0 3 < L"
    using room by (simp add: descriptors_available_def t0_def L_def)
  then have "d < L" by (simp only: d_nth numeral_3_eq_3)
  moreover have "a < b" "b < c" "c < d"
    unfolding a_nth b_nth c_nth d_nth by (rule nth_free_mono)+
  ultimately have lim: "a < L" "b < L" "c < L" "d < L" "1 < L" "2 < L" by simp_all
  have i1: "os_open_devnull w = (Inr a, w\<lparr>fd_table := t1\<rparr>)"
    using lim by (simp add: os_open_devnull_def fd_alloc_def Let_def a_def t0_def t1_def L_def)
  have i2: "os_open_devnull (w\<lparr>fd_table := t1\<rparr>) = (Inr b, w\<lparr>fd_table := t2\<rparr>)"
    using lim by (simp add: os_open_devnull_def fd_alloc_def Let_def b_def t2_def L_def)
  have "fd_lookup t2 1 = Some f1" using p1 a12 b12 by (simp add: t1_def t2_def fd_lookup_put)
  then have i3: "os_dup 1 (w\<lparr>fd_table := t2\<rparr>) = (Inr c, w\<lparr>fd_table := t3\<rparr>)"
    using lim by (simp add: os_dup_def fd_alloc_def Let_def c_def t3_def L_def)
  have "fd_lookup t3 2 = Some f2" using p2 a12 b12 c12 by (simp add: t1_def t2_def t3_def fd_lookup_put)
  then have i4: "os_dup 2 (w\<lparr>fd_table := t3\<rparr>) = (Inr d, w\<lparr>fd_table := t4\<rparr>)"
    using lim by (simp add: os_dup_def fd_alloc_def Let_def d_def t4_def L_def)
  have init: "suppress_init w = (Inr \<lparr>null_fds = (a, b), save_fds = (c, d)\<rparr>, w\<lparr>fd_table := t4\<rparr>)"
    by (simp add: suppress_init_def io_bind_def io_return_def i1 i2 i3 i4 del: One_nat_def)
  have "fd_lookup t4 a = Some DevNull"
    using b12 c12 d12 by (simp add: t1_def t2_def t3_def t4_def fd_lookup_put)
  then have e1: "os_dup2 a 1 (w\<lparr>fd_table := t4\<rparr>) = (Inr 1, w\<lparr>fd_table := t5\<rparr>)"
    using lim by (simp add: os_dup2_def t5_def L_def)
  have "fd_lookup t5 b = Some DevNull"
    using b12 c12 d12 by (simp add: t2_def t3_def t4_def t5_def fd_lookup_put)
  then have e2: "os_dup2 b 2 (w\<lparr>fd_table := t5\<rparr>) = (Inr 2, w\<lparr>fd_table := t6\<rparr>)"
    using lim by (simp add: os_dup2_def t6_def L_def)
  have enter: "suppress_enter \<lparr>null_fds = (a, b), save_fds = (c, d)\<rparr> (w\<lparr>fd_table := t4\<rparr>)
                 = (Inr (), w\<lparr>fd_table := t6\<rparr>)"
    by (simp add: suppress_enter_def io_bind_def io_return_def e1 e2 del: One_nat_def)
  have "fd_lookup t6 c = Some f1"
    using c12 d12 by (simp add: t3_def t4_def t5_def t6_def fd_lookup_put)
  then have x1: "os_dup2 c 1 (w\<lparr>fd_table := t6\<rparr>) = (Inr 1, w\<lparr>fd_table := t7\<rparr>)"
    using lim by (simp add: os_dup2_def t7_def L_def)
  have "fd_lookup t7 d = Some f2"
    using d12 by (simp add: t4_def t5_def t6_def t7_def fd_lookup_put)
  then have x2: "os_dup2 d 2 (w\<lparr>fd_table := t7\<rparr>) = (Inr 2, w\<lparr>fd_table := t8\<rparr>)"
    using lim by (simp add: os_dup2_def t8_def L_def)
  have "fd_lookup t8 a = Some DevNull"
    using a12 b12 c12 d12 by (simp add: ts fd_lookup_put)
  then have x3: "os_close a (w\<lparr>fd_table := t8\<rparr>) = (Inr (), w\<lparr>fd_table := t9\<rparr>)"
    by (simp add: os_close_def t9_def)
  have "fd_lookup t9 b = Some DevNull"
    using a12 b12 c12 d12 by (simp add: ts fd_lookup_put)
  then have x4: "os_close b (w\<lparr>fd_table := t9\<rparr>) = (Inr (), w\<lparr>fd_table := t10\<rparr>)"
    by (simp add: os_close_def t10_def)
  have exit: "suppress_exit \<lparr>null_fds = (a, b), save_fds = (c, d)\<rparr> (w\<lparr>fd_table := t6\<rparr>)
                 = (Inr (), w\<lparr>fd_table := t10\<rparr>)"
    by (simp add: suppress_exit_def io_bind_def x1 x2 x3 x4 del: One_nat_def)
  have run: "with_suppress_stdout_stderr (io_lift r) w = (r, w\<lparr>fd_table := t10\<rparr>)"
    using init enter exit
    by (simp add: with_suppress_stdout_stderr_def io_bind_def io_lift_def)
  have final: "fd_lookup t10 n =
                 (if n = c then Some f1 else if n = d then Some f2 else fd_lookup t0 n)" for n
    using a12 b12 c12 d12 a_free b0 p1 p2
    by (auto simp: ts fd_lookup_put)
  from run final c0 d0 d12(5) show ?thesis
    unfolding t0_def
    by (intro exI [of _ "w\<lparr>fd_table := t10\<rparr>"] exI [of _ c] exI [of _ d]) auto
qed

text \<open>
  C8.  From a state with the three standard descriptors: a body that looks at
  descriptors 1 and 2 finds both on the null device; after the block, whether the body
  returned or raised, descriptors 1 and 2 are the original streams and descriptors 3 and 4
  (the null files) are closed, but descriptors 5 and 6 (the saved duplicates) stay open.
  A second block leaves two more, 7 and 8.
\<close>

theorem suppress_leaks_saved_descriptors:
  "with_suppress_stdout_stderr
       (\<lambda>w. (Inr (fd_lookup (fd_table w) 1, fd_lookup (fd_table w) 2), w)) std_world
     = (Inr (Some DevNull, Some DevNull),
        std_world\<lparr>fd_table :=
           [Some (Stream ''stdin''), Some (Stream ''stdout''), Some (Stream ''stderr''),
            None, None, Some (Stream ''stdout''), Some (Stream ''stderr'')]\<rparr>)
   \<and> with_suppress_stdout_stderr (io_lift (Inl (HostError ''interrupted'') :: py_error + unit)) std_world
     = (Inl (HostError ''interrupted''),
        std_world\<lparr>fd_table :=
           [Some (Stream ''stdin''), Some (Stream ''stdout''), Some (Stream ''stderr''),
            None, None, Some (Stream ''stdout''), Some (Stream ''stderr'')]\<rparr>)
   \<and> io_bind (with_suppress_stdout_stderr (io_return ()))
        (\<lambda>_. with_suppress_stdout_stderr (io_return ())) std_world
     = (Inr (),
        std_world\<lparr>fd_table :=
           [Some (Stream ''stdin''), Some (Stream ''stdout''), Some (Stream ''stderr''),
            None, None, Some (Stream ''stdout''), Some (Stream ''stderr''),
            Some (Stream ''stdout''), Some (Stream ''stderr'')]\<rparr>)"
  by (intro conjI; code_simp)

text \<open>
  C9.  The descriptors left open add up.  With a limit of 64 descriptors and the three
  standard ones open, the same fixed-size 2 by 2 matrix is formatted to the same grid 29
  times; the 30th invocation finds no descriptor for the second duplicate and raises
  \<open>OSError\<close> instead.
\<close>

theorem repeated_formatting_runs_out_of_descriptors:
  "run_times 30
       (format_matrix
          (example_valobj ''Eigen::Matrix<int, 2, 2, 0, 2, 2>''
             (list_buffer [''1'', ''2'', ''3'', ''4'']) invalid_sbvalue (Inr 2) (Inr 2)) ())
       (std_world\<lparr>fd_limit := 64\<rparr>)
     = replicate 29
         (Inr (Some (''rows: 2, cols: 2, is_row_major: False'' @ [CHR 0x0A]
                     @ ''[ 1 3;'' @ [CHR 0x0A] @ ''  2 4;'' @ [CHR 0x0A] @ '' ]'' @ [CHR 0x0A])))
       @ [Inl OSError]"
  by code_simp

end
